theory Spec2Isabelle
  imports Complex_Main
begin

section \<open>Go strings and the \<open>strings\<close> package\<close>

text \<open>
  A Go string is a sequence of bytes, here a \<^typ>\<open>string\<close>. \<open>strings.TrimSpace\<close> removes
  the leading and the trailing white-space runes (\<open>unicode.IsSpace\<close>) of the UTF-8 text.
  A string starts with a white-space rune exactly when it starts with the UTF-8 encoding of
  one, and it ends with one exactly when it ends with such an encoding (an encoding begins
  with its only non-continuation byte, which is where \<open>utf8.DecodeLastRuneInString\<close>
  starts to decode), so trimming is written on the bytes.
\<close>

definition unicode_space :: "string list" where
  "unicode_space =
    [[CHR 0x09], [CHR 0x0A], [CHR 0x0B], [CHR 0x0C], [CHR 0x0D], [CHR 0x20],
     [CHR 0xC2, CHR 0x85], [CHR 0xC2, CHR 0xA0],
     [CHR 0xE1, CHR 0x9A, CHR 0x80],
     [CHR 0xE2, CHR 0x80, CHR 0x80], [CHR 0xE2, CHR 0x80, CHR 0x81],
     [CHR 0xE2, CHR 0x80, CHR 0x82], [CHR 0xE2, CHR 0x80, CHR 0x83],
     [CHR 0xE2, CHR 0x80, CHR 0x84], [CHR 0xE2, CHR 0x80, CHR 0x85],
     [CHR 0xE2, CHR 0x80, CHR 0x86], [CHR 0xE2, CHR 0x80, CHR 0x87],
     [CHR 0xE2, CHR 0x80, CHR 0x88], [CHR 0xE2, CHR 0x80, CHR 0x89],
     [CHR 0xE2, CHR 0x80, CHR 0x8A],
     [CHR 0xE2, CHR 0x80, CHR 0xA8], [CHR 0xE2, CHR 0x80, CHR 0xA9],
     [CHR 0xE2, CHR 0x80, CHR 0xAF],
     [CHR 0xE2, CHR 0x81, CHR 0x9F],
     [CHR 0xE3, CHR 0x80, CHR 0x80]]"

text \<open>The width of the first byte sequence of \<open>ws\<close> that \<open>s\<close> starts with; 0 when there is none.\<close>

definition lead_width :: "string list \<Rightarrow> string \<Rightarrow> nat" where
  "lead_width ws s =
    (case List.find (\<lambda>w. take (length w) s = w) ws of
       None \<Rightarrow> 0
     | Some w \<Rightarrow> length w)"

function strip_leading :: "string list \<Rightarrow> string \<Rightarrow> string" where
  "strip_leading ws s =
    (if lead_width ws s = 0 then s else strip_leading ws (drop (lead_width ws s) s))"
  by pat_completeness auto
termination
proof (relation "measure (\<lambda>(ws, s). length s)")
  show "wf (measure (\<lambda>(ws, s). length s))" by simp
next
  fix ws :: "string list" and s :: string
  assume nz: "lead_width ws s \<noteq> 0"
  then obtain w where "List.find (\<lambda>w. take (length w) s = w) ws = Some w" and "length w \<noteq> 0"
    by (auto simp: lead_width_def split: option.splits)
  then have "take (length w) s = w" and "w \<noteq> []"
    by (auto simp: find_Some_iff)
  then have "s \<noteq> []" by auto
  with nz show "((ws, drop (lead_width ws s) s), (ws, s)) \<in> measure (\<lambda>(ws, s). length s)"
    by simp
qed

declare strip_leading.simps [simp del]

definition TrimSpace :: "string \<Rightarrow> string" where
  "TrimSpace s = rev (strip_leading (map rev unicode_space) (rev (strip_leading unicode_space s)))"

text \<open>\<open>strings.TrimRight(s, cutset)\<close> for a cutset of ASCII bytes.\<close>

definition TrimRight :: "string \<Rightarrow> string \<Rightarrow> string" where
  "TrimRight s cutset = rev (dropWhile (\<lambda>c. c \<in> set cutset) (rev s))"

section \<open>The \<open>time\<close> package: parsing a date\<close>

text \<open>
  A \<open>time.Time\<close> as far as this program reads it: the calendar date, and the time of day in
  nanoseconds. \<open>time.Parse\<close> of a layout without clock fields gives midnight UTC. The
  location is not part of the model.
\<close>

record Time =
  Year :: int
  Month :: int
  Day :: int
  Clock :: nat

definition Date :: "int \<Rightarrow> int \<Rightarrow> int \<Rightarrow> Time" where
  "Date y m d = \<lparr>Year = y, Month = m, Day = d, Clock = 0\<rparr>"

definition byte :: "char \<Rightarrow> nat" where
  "byte c = of_char c"

text \<open>\<open>isDigit(s, i)\<close>: index \<open>i\<close> is in range and holds a decimal digit.\<close>

definition isDigit :: "string \<Rightarrow> nat \<Rightarrow> bool" where
  "isDigit s i = (if length s \<le> i then False else 48 \<le> byte (s ! i) \<and> byte (s ! i) \<le> 57)"

text \<open>\<open>getnum(s, fixed)\<close>: one or two digits, exactly two when \<open>fixed\<close>.\<close>

definition getnum :: "string \<Rightarrow> bool \<Rightarrow> (int \<times> string) option" where
  "getnum s fixed =
    (if \<not> isDigit s 0 then None
     else if \<not> isDigit s 1 then
       (if fixed then None else Some (int (byte (s ! 0)) - 48, drop 1 s))
     else Some ((int (byte (s ! 0)) - 48) * 10 + (int (byte (s ! 1)) - 48), drop 2 s))"

text \<open>
  \<open>leadingInt\<close> and \<open>atoi\<close>. The overflow check of \<open>leadingInt\<close> is left out: \<open>time.Parse\<close>
  calls \<open>atoi\<close> here on four bytes.
\<close>

definition leadingInt :: "string \<Rightarrow> int \<times> string" where
  "leadingInt s =
    (foldl (\<lambda>x c. x * 10 + (int (byte c) - 48)) 0
       (takeWhile (\<lambda>c. 48 \<le> byte c \<and> byte c \<le> 57) s),
     dropWhile (\<lambda>c. 48 \<le> byte c \<and> byte c \<le> 57) s)"

definition atoi :: "string \<Rightarrow> int option" where
  "atoi s =
    (let signed = (s \<noteq> [] \<and> (hd s = CHR ''-'' \<or> hd s = CHR ''+''));
         neg = (signed \<and> hd s = CHR ''-'');
         (q, rem) = leadingInt (if signed then tl s else s)
     in if rem \<noteq> [] then None else Some (if neg then - q else q))"

text \<open>\<open>c |= 'a' - 'A'\<close>: bit 5 of the byte is set.\<close>

definition or_0x20 :: "char \<Rightarrow> char" where
  "or_0x20 c = (case c of Char b0 b1 b2 b3 b4 b5 b6 b7 \<Rightarrow> Char b0 b1 b2 b3 b4 True b6 b7)"

text \<open>\<open>match(s1, s2)\<close>: equality of two strings of the same length, ignoring ASCII case.\<close>

fun match :: "string \<Rightarrow> string \<Rightarrow> bool" where
  "match (c1 # s1) (c2 # s2) =
    (if c1 \<noteq> c2 \<and>
        (or_0x20 c1 \<noteq> or_0x20 c2 \<or> byte (or_0x20 c1) < 97 \<or> byte (or_0x20 c1) > 122)
     then False
     else match s1 s2)"
| "match s1 s2 = True"

definition shortMonthNames :: "string list" where
  "shortMonthNames =
    [''Jan'', ''Feb'', ''Mar'', ''Apr'', ''May'', ''Jun'',
     ''Jul'', ''Aug'', ''Sep'', ''Oct'', ''Nov'', ''Dec'']"

definition longMonthNames :: "string list" where
  "longMonthNames =
    [''January'', ''February'', ''March'', ''April'', ''May'', ''June'',
     ''July'', ''August'', ''September'', ''October'', ''November'', ''December'']"

text \<open>\<open>lookup(tab, val)\<close>: the index of the first name of \<open>tab\<close> that \<open>val\<close> starts with.\<close>

fun lookup_from :: "int \<Rightarrow> string list \<Rightarrow> string \<Rightarrow> (int \<times> string) option" where
  "lookup_from i [] val = None"
| "lookup_from i (v # tab) val =
    (if length val \<ge> length v \<and> match (take (length v) val) v
     then Some (i, drop (length v) val)
     else lookup_from (i + 1) tab val)"

definition lookup :: "string list \<Rightarrow> string \<Rightarrow> (int \<times> string) option" where
  "lookup tab val = lookup_from 0 tab val"

definition cutspace :: "string \<Rightarrow> string" where
  "cutspace s = dropWhile (\<lambda>c. c = CHR '' '') s"

text \<open>\<open>skip(value, prefix)\<close>: removes the literal text of the layout; a run of spaces of the
  layout stands for any run of spaces of the value.\<close>

function skip :: "string \<Rightarrow> string \<Rightarrow> string option" where
  "skip val prefix =
    (if prefix = [] then Some val
     else if hd prefix = CHR '' '' then
       (if val \<noteq> [] \<and> hd val \<noteq> CHR '' '' then None
        else skip (cutspace val) (cutspace prefix))
     else if val = [] \<or> hd val \<noteq> hd prefix then None
     else skip (tl val) (tl prefix))"
  by pat_completeness auto
termination
proof (relation "measure (\<lambda>(val, prefix). length prefix)")
  show "wf (measure (\<lambda>(val, prefix). length prefix))" by simp
next
  fix val prefix :: string
  assume "prefix \<noteq> []" and "hd prefix = CHR '' ''"
  then obtain ps where "prefix = CHR '' '' # ps" by (cases prefix) auto
  then have "length (cutspace prefix) < length prefix"
    by (simp add: cutspace_def le_imp_less_Suc length_dropWhile_le)
  then show "((cutspace val, cutspace prefix), (val, prefix)) \<in> measure (\<lambda>(val, prefix). length prefix)"
    by simp
next
  fix val prefix :: string
  assume "prefix \<noteq> []"
  then show "((tl val, tl prefix), (val, prefix)) \<in> measure (\<lambda>(val, prefix). length prefix)"
    by (cases prefix) auto
qed

declare skip.simps [simp del]

definition isLeap :: "int \<Rightarrow> bool" where
  "isLeap year = (year mod 4 = 0 \<and> (year mod 100 \<noteq> 0 \<or> year mod 400 = 0))"

definition daysIn :: "int \<Rightarrow> int \<Rightarrow> int" where
  "daysIn m year =
    (if m = 2 then (if isLeap year then 29 else 28)
     else if m = 4 \<or> m = 6 \<or> m = 9 \<or> m = 11 then 30
     else 31)"

text \<open>
  A layout as \<open>nextStdChunk\<close> cuts it: literal text and the fields this program's layouts
  use. \<open>parse_chunks\<close> is the loop of \<open>time.Parse\<close> over the chunks; its state is the
  year, month and day read so far (\<open>0\<close>, \<open>-1\<close>, \<open>-1\<close> at the start). When the layout is used
  up, text left over is an error, a missing month or day becomes 1, and the day is checked
  against the month. \<open>None\<close> is a non-nil error.
\<close>

datatype chunk =
  Lit string | stdLongMonth | stdMonth | stdZeroMonth | stdDay | stdZeroDay | stdLongYear

fun parse_chunks :: "chunk list \<Rightarrow> int \<times> int \<times> int \<Rightarrow> string \<Rightarrow> Time option" where
  "parse_chunks [] (year, month, day) val =
    (if val \<noteq> [] then None
     else let month = (if month < 0 then 1 else month);
              day = (if day < 0 then 1 else day)
          in if day < 1 \<or> day > daysIn month year then None
             else Some (Date year month day))"
| "parse_chunks (Lit prefix # layout) st val =
    (case skip val prefix of
       None \<Rightarrow> None
     | Some val \<Rightarrow> parse_chunks layout st val)"
| "parse_chunks (stdLongYear # layout) (year, month, day) val =
    (if length val < 4 \<or> \<not> isDigit val 0 then None
     else case atoi (take 4 val) of
            None \<Rightarrow> None
          | Some year \<Rightarrow> parse_chunks layout (year, month, day) (drop 4 val))"
| "parse_chunks (stdMonth # layout) (year, month, day) val =
    (case lookup shortMonthNames val of
       None \<Rightarrow> None
     | Some (month, val) \<Rightarrow> parse_chunks layout (year, month + 1, day) val)"
| "parse_chunks (stdLongMonth # layout) (year, month, day) val =
    (case lookup longMonthNames val of
       None \<Rightarrow> None
     | Some (month, val) \<Rightarrow> parse_chunks layout (year, month + 1, day) val)"
| "parse_chunks (stdZeroMonth # layout) (year, month, day) val =
    (case getnum val True of
       None \<Rightarrow> None
     | Some (month, val) \<Rightarrow>
         if month \<le> 0 \<or> 12 < month then None
         else parse_chunks layout (year, month, day) val)"
| "parse_chunks (stdDay # layout) (year, month, day) val =
    (case getnum val False of
       None \<Rightarrow> None
     | Some (day, val) \<Rightarrow> parse_chunks layout (year, month, day) val)"
| "parse_chunks (stdZeroDay # layout) (year, month, day) val =
    (case getnum val True of
       None \<Rightarrow> None
     | Some (day, val) \<Rightarrow> parse_chunks layout (year, month, day) val)"

definition time_Parse :: "chunk list \<Rightarrow> string \<Rightarrow> Time option" where
  "time_Parse layout val = parse_chunks layout (0, - 1, - 1) val"

text \<open>The layouts of \<open>main.go\<close>: \<open>"Jan 2, 2006"\<close>, \<open>"2 Jan, 2006"\<close>, \<open>"January 2, 2006"\<close>,
  \<open>"2 January, 2006"\<close> and \<open>"2006-01-02"\<close>.\<close>

definition layout_Jan_2_2006 :: "chunk list" where
  "layout_Jan_2_2006 = [stdMonth, Lit '' '', stdDay, Lit '', '', stdLongYear]"

definition layout_2_Jan_2006 :: "chunk list" where
  "layout_2_Jan_2006 = [stdDay, Lit '' '', stdMonth, Lit '', '', stdLongYear]"

definition layout_January_2_2006 :: "chunk list" where
  "layout_January_2_2006 = [stdLongMonth, Lit '' '', stdDay, Lit '', '', stdLongYear]"

definition layout_2_January_2006 :: "chunk list" where
  "layout_2_January_2006 = [stdDay, Lit '' '', stdLongMonth, Lit '', '', stdLongYear]"

definition layout_2006_01_02 :: "chunk list" where
  "layout_2006_01_02 = [stdLongYear, Lit ''-'', stdZeroMonth, Lit ''-'', stdZeroDay]"

section \<open>Field normalisation\<close>

text \<open>
  \<open>parseFloat\<close> of \<open>main.go\<close>. \<open>strconv.ParseFloat(value, 64)\<close> is the parameter
  \<open>ParseFloat\<close>: \<open>None\<close> when it returns an error, the float otherwise. The type \<open>'f\<close>
  stands for \<open>float64\<close>; the program does no arithmetic on it.
\<close>

definition parseFloat :: "(string \<Rightarrow> 'f option) \<Rightarrow> string \<Rightarrow> 'f option" where
  "parseFloat ParseFloat value =
    (let value = TrimSpace value;
         value = TrimRight value ''*%''
     in if value = [] then None
        else case ParseFloat value of
               None \<Rightarrow> None
             | Some num \<Rightarrow> Some num)"

text \<open>\<open>parseDate\<close> of \<open>main.go\<close>: the loop over \<open>formats\<close> returns at the first layout that
  parses.\<close>

definition formats :: "chunk list list" where
  "formats =
    [layout_Jan_2_2006, layout_2_Jan_2006, layout_January_2_2006, layout_2_January_2006]"

fun try_formats :: "chunk list list \<Rightarrow> string \<Rightarrow> Time option" where
  "try_formats [] date = None"
| "try_formats (format # rest) date =
    (case time_Parse format date of
       Some t \<Rightarrow> Some t
     | None \<Rightarrow> try_formats rest date)"

definition parseDate :: "string \<Rightarrow> Time option" where
  "parseDate date =
    (let date = TrimSpace date
     in if date = [] then None else try_formats formats date)"

section \<open>The HTML tree, cascadia and goquery\<close>

text \<open>
  \<open>html.Node\<close> of \<open>golang.org/x/net/html\<close>: the type of the node, its data (the tag of an
  element, the text of a text node), its attributes as pairs of key and value, and its
  children in document order.
\<close>

datatype node_type =
  ErrorNode | TextNode | DocumentNode | ElementNode | CommentNode | DoctypeNode

datatype node =
  Node (node_Type: node_type) (node_Data: string) (node_Attr: "(string \<times> string) list")
    (node_Children: "node list")

text \<open>
  A compiled cascadia selector of the form \<open>tag[key='val']...\<close>: an element with that tag
  that has, for each pair, an attribute with that key and value. \<open>MatchAll\<close> collects the
  matching nodes of a subtree in document order (the node, then its children in turn).
\<close>

datatype selector = Selector string "(string \<times> string) list"

fun Match :: "selector \<Rightarrow> node \<Rightarrow> bool" where
  "Match (Selector tag eqs) n =
    (node_Type n = ElementNode \<and> node_Data n = tag \<and>
     list_all (\<lambda>(key, val). list_ex (\<lambda>a. fst a = key \<and> snd a = val) (node_Attr n)) eqs)"

fun MatchAll :: "selector \<Rightarrow> node \<Rightarrow> node list" where
  "MatchAll s (Node t d a cs) =
    (if Match s (Node t d a cs) then [Node t d a cs] else []) @ concat (map (MatchAll s) cs)"

text \<open>
  A goquery \<open>Selection\<close> is the list of its nodes. \<open>Find\<close> searches below each node of the
  selection: \<open>MatchAll\<close> on each child that is an element. goquery then drops a pointer
  that occurs twice, which happens only when a node of the selection lies inside another
  one; the selections searched by this program hold one node.
\<close>

definition Find :: "node list \<Rightarrow> selector \<Rightarrow> node list" where
  "Find nodes s =
    concat (map (\<lambda>n. concat (map (MatchAll s)
                        (filter (\<lambda>c. node_Type c = ElementNode) (node_Children n)))) nodes)"

definition Eq :: "node list \<Rightarrow> int \<Rightarrow> node list" where
  "Eq nodes index =
    (let index = (if index < 0 then index + int (length nodes) else index)
     in if index \<ge> int (length nodes) \<or> index < 0 then []
        else [nodes ! nat index])"

fun getNodeText :: "node \<Rightarrow> string" where
  "getNodeText (Node t d a cs) =
    (if t = TextNode then d else concat (map getNodeText cs))"

definition Text :: "node list \<Rightarrow> string" where
  "Text nodes = concat (map getNodeText nodes)"

text \<open>
  An \<open>io.Reader\<close>: the bytes it yields, and how it ends: with \<open>io.EOF\<close> (\<open>None\<close>) or with
  another error. \<open>strings.NewReader\<close> ends with \<open>io.EOF\<close>. \<open>io.LimitReader\<close> ends with
  \<open>io.EOF\<close> after \<open>n\<close> bytes. \<open>io.ReadAll\<close> returns the bytes, or the error.
\<close>

datatype reader = Reader string "string option"

definition strings_NewReader :: "string \<Rightarrow> reader" where
  "strings_NewReader s = Reader s None"

definition LimitReader :: "reader \<Rightarrow> int \<Rightarrow> reader" where
  "LimitReader r n =
    (case r of Reader bs e \<Rightarrow>
       if n \<le> int (length bs) then Reader (take (nat n) bs) None else Reader bs e)"

definition ReadAll :: "reader \<Rightarrow> string + string" where
  "ReadAll r = (case r of Reader bs None \<Rightarrow> Inr bs | Reader bs (Some err) \<Rightarrow> Inl err)"

section \<open>The data of the program and what it calls\<close>

text \<open>\<open>Fund\<close> of \<open>main.go\<close>; a nil pointer is \<open>None\<close>.\<close>

record 'f Fund =
  Name :: string
  LaunchDate :: "Time option"
  ValidityDate :: "Time option"
  Repurchase :: "'f option"
  Offer :: "'f option"
  NAV :: "'f option"
  MTD :: "'f option"
  FYTD :: "'f option"
  CYTD :: "'f option"
  FY24 :: "'f option"
  FY23 :: "'f option"
  SinceInception :: "'f option"
  UploadDate :: Time

text \<open>
  The libraries and the environment of a request, as parameters of the model:
  \<^item> \<open>ParseFloat\<close>: \<open>strconv.ParseFloat(s, 64)\<close>, \<open>None\<close> for an error;
  \<^item> \<open>html_error\<close>: the error with which \<open>html.Parse\<close> rejects the bytes of a document,
    \<open>None\<close> when it accepts them (\<open>golang.org/x/net/html\<close> gives up with
    \<open>html: open stack of elements exceeds 512 nodes\<close> when more than 512 elements are open
    at once);
  \<^item> \<open>html_tree\<close>: the tree that \<open>html.Parse\<close> builds from the bytes it accepts;
  \<^item> \<open>UnescapeString\<close>: \<open>html.UnescapeString\<close>;
  \<^item> \<open>Now\<close>: \<open>time.Now()\<close>; \<open>Format_RFC3339\<close>: \<open>t.Format(time.RFC3339)\<close>;
  \<^item> \<open>json_Encode\<close>: \<open>json.NewEncoder(w).Encode\<close>, the error or the text written;
  \<^item> the errors of the database calls of one \<open>storeFunds\<close>: of \<open>BeginTx\<close>, of
    \<open>PrepareContext\<close>, of the \<open>i\<close>-th \<open>ExecContext\<close> with its arguments, and of \<open>Commit\<close>
    (\<open>None\<close> is a nil error).
\<close>

datatype 'f sqlval = SqlNull | SqlText string | SqlReal 'f

record 'f world =
  ParseFloat :: "string \<Rightarrow> 'f option"
  html_error :: "string \<Rightarrow> string option"
  html_tree :: "string \<Rightarrow> node"
  UnescapeString :: "string \<Rightarrow> string"
  Now :: Time
  Format_RFC3339 :: "Time \<Rightarrow> string"
  json_Encode :: "'f Fund list \<Rightarrow> string + string"
  BeginTx_err :: "string option"
  Prepare_err :: "string option"
  Exec_err :: "nat \<Rightarrow> 'f sqlval list \<Rightarrow> string option"
  Commit_err :: "string option"

text \<open>
  \<open>html.Parse\<close> returns an error when it rejects the bytes it has read, or when reading
  fails; \<open>goquery.NewDocumentFromReader\<close> passes the error on, and otherwise gives the
  document: the selection that holds the root.
\<close>

definition html_Parse :: "'f world \<Rightarrow> reader \<Rightarrow> string + node" where
  "html_Parse w r =
    (case r of Reader bs end \<Rightarrow>
       (case html_error w bs of
          Some err \<Rightarrow> Inl err
        | None \<Rightarrow> (case end of Some err \<Rightarrow> Inl err | None \<Rightarrow> Inr (html_tree w bs))))"

definition NewDocumentFromReader :: "'f world \<Rightarrow> reader \<Rightarrow> string + node list" where
  "NewDocumentFromReader w r =
    (case html_Parse w r of Inl e \<Rightarrow> Inl e | Inr doc_root \<Rightarrow> Inr [doc_root])"

section \<open>Extraction\<close>

text \<open>
  \<open>parseHTML\<close> of \<open>main.go\<close>. \<open>row_fund\<close> is the \<open>Fund\<close> literal of the callback, built from
  the \<open>td\<close> selection of a row; \<open>Each_row\<close> is \<open>Each\<close> with the callback, threading the
  slice \<open>funds\<close> that the callback appends to. The context and the logger do not
  influence the result and are left out.
\<close>

definition cleanText :: "node list \<Rightarrow> int \<Rightarrow> string" where
  "cleanText columns idx = TrimSpace (Text (Eq columns idx))"

definition row_fund :: "'f world \<Rightarrow> node list \<Rightarrow> Time \<Rightarrow> 'f Fund" where
  "row_fund w columns uploadDate =
    \<lparr>Name = TrimRight (cleanText columns 0) ''*'',
     LaunchDate = parseDate (cleanText columns 1),
     ValidityDate = parseDate (cleanText columns 2),
     Repurchase = parseFloat (ParseFloat w) (cleanText columns 3),
     Offer = parseFloat (ParseFloat w) (cleanText columns 4),
     NAV = parseFloat (ParseFloat w) (cleanText columns 5),
     MTD = parseFloat (ParseFloat w) (cleanText columns 6),
     FYTD = parseFloat (ParseFloat w) (cleanText columns 7),
     CYTD = parseFloat (ParseFloat w) (cleanText columns 8),
     FY24 = parseFloat (ParseFloat w) (cleanText columns 9),
     FY23 = parseFloat (ParseFloat w) (cleanText columns 10),
     SinceInception = parseFloat (ParseFloat w) (cleanText columns 11),
     UploadDate = uploadDate\<rparr>"

fun Each_row :: "'f world \<Rightarrow> Time \<Rightarrow> 'f Fund list \<Rightarrow> node list \<Rightarrow> 'f Fund list" where
  "Each_row w uploadDate funds [] = funds"
| "Each_row w uploadDate funds (row # rows) =
    (let columns = Find [row] (Selector ''td'' [])
     in if int (length columns) < 12 then Each_row w uploadDate funds rows
        else Each_row w uploadDate (funds @ [row_fund w columns uploadDate]) rows)"

definition parseHTML :: "'f world \<Rightarrow> string \<Rightarrow> Time \<Rightarrow> string + 'f Fund list" where
  "parseHTML w htmlContent uploadDate =
    (case NewDocumentFromReader w (strings_NewReader htmlContent) of
       Inl err \<Rightarrow> Inl (''failed to parse HTML document: '' @ err)
     | Inr doc \<Rightarrow>
         Inr (Each_row w uploadDate []
                (Find doc (Selector ''tr'' [(''align'', ''center'')]))))"

section \<open>Persistence\<close>

text \<open>
  The database as \<open>storeFunds\<close> sees it: the rows of the table \<open>funds\<close>, each with its id and
  the thirteen column values of the \<open>INSERT\<close>, and the counter of the \<open>AUTOINCREMENT\<close> key.
  A transaction works on a copy of the database: \<open>Commit\<close> makes the copy the database,
  \<open>Rollback\<close> (deferred in \<open>storeFunds\<close>, and what the driver does when \<open>Commit\<close> fails)
  drops it.
\<close>

record 'f DB =
  funds_rows :: "(nat \<times> 'f sqlval list) list"
  funds_seq :: nat

record Config =
  APIKey :: string
  Port :: string
  DatabasePath :: string

record 'f Server =
  config :: Config
  db :: "'f DB"

definition formatDate :: "'f world \<Rightarrow> Time option \<Rightarrow> 'f sqlval" where
  "formatDate w t = (case t of None \<Rightarrow> SqlNull | Some t \<Rightarrow> SqlText (Format_RFC3339 w t))"

definition float_arg :: "'f option \<Rightarrow> 'f sqlval" where
  "float_arg p = (case p of None \<Rightarrow> SqlNull | Some x \<Rightarrow> SqlReal x)"

definition insert_args :: "'f world \<Rightarrow> 'f Fund \<Rightarrow> 'f sqlval list" where
  "insert_args w fund =
    [SqlText (Name fund),
     formatDate w (LaunchDate fund),
     formatDate w (ValidityDate fund),
     float_arg (Repurchase fund),
     float_arg (Offer fund),
     float_arg (NAV fund),
     float_arg (MTD fund),
     float_arg (FYTD fund),
     float_arg (CYTD fund),
     float_arg (FY24 fund),
     float_arg (FY23 fund),
     float_arg (SinceInception fund),
     SqlText (Format_RFC3339 w (UploadDate fund))]"

definition ExecContext :: "'f world \<Rightarrow> nat \<Rightarrow> 'f DB \<Rightarrow> 'f sqlval list \<Rightarrow> string + 'f DB" where
  "ExecContext w i tx args =
    (case Exec_err w i args of
       Some err \<Rightarrow> Inl err
     | None \<Rightarrow>
         Inr (tx\<lparr>funds_rows := funds_rows tx @ [(funds_seq tx + 1, args)],
                 funds_seq := funds_seq tx + 1\<rparr>))"

text \<open>The loop \<open>for _, fund := range funds\<close>; \<open>i\<close> counts the calls of \<open>ExecContext\<close>.\<close>

fun insert_funds :: "'f world \<Rightarrow> nat \<Rightarrow> 'f DB \<Rightarrow> 'f Fund list \<Rightarrow> string + 'f DB" where
  "insert_funds w i tx [] = Inr tx"
| "insert_funds w i tx (fund # funds) =
    (case ExecContext w i tx (insert_args w fund) of
       Inl err \<Rightarrow> Inl (''failed to insert fund '' @ [CHR 0x27] @ Name fund @ [CHR 0x27] @ '': '' @ err)
     | Inr tx \<Rightarrow> insert_funds w (Suc i) tx funds)"

text \<open>\<open>storeFunds\<close> of \<open>main.go\<close>: the error it returns and the server with its database
  afterwards.\<close>

definition storeFunds :: "'f world \<Rightarrow> 'f Server \<Rightarrow> 'f Fund list \<Rightarrow> string option \<times> 'f Server" where
  "storeFunds w s funds =
    (case BeginTx_err w of
       Some err \<Rightarrow> (Some (''failed to begin transaction: '' @ err), s)
     | None \<Rightarrow>
         (case Prepare_err w of
            Some err \<Rightarrow> (Some (''failed to prepare statement: '' @ err), s)
          | None \<Rightarrow>
              (case insert_funds w 0 (db s) funds of
                 Inl err \<Rightarrow> (Some err, s)
               | Inr tx \<Rightarrow>
                   (case Commit_err w of
                      Some err \<Rightarrow> (Some (''failed to commit transaction: '' @ err), s)
                    | None \<Rightarrow> (None, s\<lparr>db := tx\<rparr>)))))"

section \<open>The upload handler\<close>

text \<open>
  A request as the handler reads it: \<open>r.Header.Get\<close>, \<open>r.Method\<close>, the error of
  \<open>r.ParseMultipartForm\<close>, and what \<open>r.FormFile\<close> and \<open>r.FormValue\<close> return once the form is
  parsed. The response is the status, the content type and the body written.
\<close>

record FileHeader =
  Filename :: string
  Size :: int

record Request =
  Header_Get :: "string \<Rightarrow> string"
  Method :: string
  ParseMultipartForm :: "int \<Rightarrow> string option"
  FormFile :: "string \<Rightarrow> string + (reader \<times> FileHeader)"
  FormValue :: "string \<Rightarrow> string"

record Response =
  Status :: int
  ContentType :: string
  Body :: string

definition maxFileSize :: int where
  "maxFileSize = 512 * 1024"

definition http_Error :: "string \<Rightarrow> int \<Rightarrow> Response" where
  "http_Error error code =
    \<lparr>Status = code, ContentType = ''text/plain; charset=utf-8'', Body = error @ [CHR 0x0A]\<rparr>"

definition StatusOK :: int where "StatusOK = 200"
definition StatusBadRequest :: int where "StatusBadRequest = 400"
definition StatusUnauthorized :: int where "StatusUnauthorized = 401"
definition StatusMethodNotAllowed :: int where "StatusMethodNotAllowed = 405"
definition StatusRequestEntityTooLarge :: int where "StatusRequestEntityTooLarge = 413"
definition StatusInternalServerError :: int where "StatusInternalServerError = 500"

text \<open>\<open>uploadHandler\<close> of \<open>main.go\<close>, without its log calls: the response and the server
  afterwards.\<close>

definition uploadHandler :: "'f world \<Rightarrow> 'f Server \<Rightarrow> Request \<Rightarrow> Response \<times> 'f Server" where
  "uploadHandler w s r =
    (if Header_Get r ''X-API-Key'' \<noteq> APIKey (config s) then
       (http_Error ''Unauthorized'' StatusUnauthorized, s)
     else if Method r \<noteq> ''POST'' then
       (http_Error ''Method not allowed'' StatusMethodNotAllowed, s)
     else case ParseMultipartForm r maxFileSize of
       Some err \<Rightarrow> (http_Error ''Invalid request format'' StatusBadRequest, s)
     | None \<Rightarrow>
    (case FormFile r ''file'' of
       Inl err \<Rightarrow> (http_Error ''Invalid file upload'' StatusBadRequest, s)
     | Inr (file, fileHeader) \<Rightarrow>
    (let dateStr = FormValue r ''date''
     in case (if dateStr \<noteq> [] then time_Parse layout_2006_01_02 dateStr else Some (Now w)) of
       None \<Rightarrow>
         (http_Error ''Invalid date format. Please use YYYY-MM-DD'' StatusBadRequest, s)
     | Some uploadDate \<Rightarrow>
    (if Size fileHeader > maxFileSize then
       (http_Error ''File too large'' StatusRequestEntityTooLarge, s)
     else case ReadAll (LimitReader file maxFileSize) of
       Inl err \<Rightarrow> (http_Error ''Failed to read file'' StatusInternalServerError, s)
     | Inr fileBytes \<Rightarrow>
    (let htmlContent = UnescapeString w fileBytes
     in case parseHTML w htmlContent uploadDate of
       Inl err \<Rightarrow>
         (http_Error (''Failed to parse HTML: '' @ err) StatusInternalServerError, s)
     | Inr funds \<Rightarrow>
    (if length funds = 0 then
       (http_Error ''No funds found in the provided HTML'' StatusBadRequest, s)
     else case storeFunds w s funds of
       (Some err, s) \<Rightarrow>
         (http_Error (''Failed to store funds in database: '' @ err) StatusInternalServerError, s)
     | (None, s) \<Rightarrow>
    (case json_Encode w funds of
       Inl err \<Rightarrow> (http_Error ''Failed to generate response'' StatusInternalServerError, s)
     | Inr body \<Rightarrow>
         (\<lparr>Status = StatusOK, ContentType = ''application/json'', Body = body\<rparr>, s))))))))"

section \<open>Notions used in the statements\<close>

text \<open>Decimal text: digits with the characters of a sign, a point and an exponent.\<close>

definition decimal_text :: "string \<Rightarrow> bool" where
  "decimal_text s \<longleftrightarrow>
     s \<noteq> [] \<and> list_all (\<lambda>c. c \<in> set ''0123456789.+-eE'') s
     \<and> list_ex (\<lambda>c. c \<in> set ''0123456789'') s"

text \<open>No sequence of the list is the beginning of another one.\<close>

definition prefix_free :: "string list \<Rightarrow> bool" where
  "prefix_free L = list_all (\<lambda>u. list_all (\<lambda>v. take (length u) v = u \<longrightarrow> u = v) L) L"

text \<open>
  The four date texts of the specification, written from its words: \<open>Mon\<close> is the English
  three-letter month, \<open>Month\<close> the full month name, \<open>D\<close> the day of the month without
  padding and \<open>YYYY\<close> the year in four digits.
\<close>

datatype date_layout = Mon_D_YYYY | D_Mon_YYYY | Month_D_YYYY | D_Month_YYYY

definition digit_char :: "nat \<Rightarrow> char" where
  "digit_char n = char_of (48 + n)"

definition render_Mon :: "int \<Rightarrow> string" where
  "render_Mon m =
    [''Jan'', ''Feb'', ''Mar'', ''Apr'', ''May'', ''Jun'',
     ''Jul'', ''Aug'', ''Sep'', ''Oct'', ''Nov'', ''Dec''] ! nat (m - 1)"

definition render_Month :: "int \<Rightarrow> string" where
  "render_Month m =
    [''January'', ''February'', ''March'', ''April'', ''May'', ''June'', ''July'',
     ''August'', ''September'', ''October'', ''November'', ''December''] ! nat (m - 1)"

definition render_D :: "int \<Rightarrow> string" where
  "render_D d =
    (if d < 10 then [digit_char (nat d)]
     else [digit_char (nat d div 10), digit_char (nat d mod 10)])"

definition render_YYYY :: "int \<Rightarrow> string" where
  "render_YYYY y =
    [digit_char (nat y div 1000), digit_char (nat y div 100 mod 10),
     digit_char (nat y div 10 mod 10), digit_char (nat y mod 10)]"

fun render :: "date_layout \<Rightarrow> int \<Rightarrow> int \<Rightarrow> int \<Rightarrow> string" where
  "render Mon_D_YYYY y m d = render_Mon m @ '' '' @ render_D d @ '', '' @ render_YYYY y"
| "render D_Mon_YYYY y m d = render_D d @ '' '' @ render_Mon m @ '', '' @ render_YYYY y"
| "render Month_D_YYYY y m d = render_Month m @ '' '' @ render_D d @ '', '' @ render_YYYY y"
| "render D_Month_YYYY y m d = render_D d @ '' '' @ render_Month m @ '', '' @ render_YYYY y"

text \<open>A calendar date of the Gregorian calendar with a year of four digits.\<close>

definition leap_year :: "int \<Rightarrow> bool" where
  "leap_year y \<longleftrightarrow> y mod 4 = 0 \<and> y mod 100 \<noteq> 0 \<or> y mod 400 = 0"

definition month_length :: "int \<Rightarrow> int \<Rightarrow> int" where
  "month_length y m =
    [31, if leap_year y then 29 else 28, 31, 30, 31, 30, 31, 31, 30, 31, 30, 31] ! nat (m - 1)"

definition calendar_date :: "int \<Rightarrow> int \<Rightarrow> int \<Rightarrow> bool" where
  "calendar_date y m d \<longleftrightarrow>
     0 \<le> y \<and> y \<le> 9999 \<and> 1 \<le> m \<and> m \<le> 12 \<and> 1 \<le> d \<and> d \<le> month_length y m"

text \<open>
  The rows of a document. The candidate rows are those the selector
  \<open>tr[align='center']\<close> finds, in document order. \<open>td_below\<close> are the \<open>td\<close> elements
  anywhere below a row, those of tables nested in the row included: it is what
  \<open>row.Find("td")\<close> selects. The extracted rows are the candidate rows with at least 12
  of them.
\<close>

definition candidate_rows :: "node \<Rightarrow> node list" where
  "candidate_rows doc = Find [doc] (Selector ''tr'' [(''align'', ''center'')])"

definition td_below :: "node \<Rightarrow> node list" where
  "td_below row = Find [row] (Selector ''td'' [])"

definition extracted_rows :: "node \<Rightarrow> node list" where
  "extracted_rows doc = filter (\<lambda>row. 12 \<le> length (td_below row)) (candidate_rows doc)"




section \<open>Example data\<close>

text \<open>
  A document with one table, given by the texts of the cells of its rows: its HTML text,
  in which every row is a \<open>tr\<close> with \<open>align=center\<close>, and the tree that the HTML parser
  builds from it.
\<close>

definition table_html :: "string list list \<Rightarrow> string" where
  "table_html rows =
    ''<table>'' @
    concat (map (\<lambda>cells. ''<tr align=center>'' @
                   concat (map (\<lambda>txt. ''<td>'' @ txt @ ''</td>'') cells) @ ''</tr>'') rows) @
    ''</table>''"

definition td_cell :: "string \<Rightarrow> node" where
  "td_cell txt =
    Node ElementNode ''td'' [] (if txt = [] then [] else [Node TextNode txt [] []])"

definition tr_center :: "string list \<Rightarrow> node" where
  "tr_center cells = Node ElementNode ''tr'' [(''align'', ''center'')] (map td_cell cells)"

definition table_document :: "node list \<Rightarrow> node" where
  "table_document rows =
    Node DocumentNode [] []
      [Node ElementNode ''html'' []
        [Node ElementNode ''head'' [] [],
         Node ElementNode ''body'' []
           [Node ElementNode ''table'' [] [Node ElementNode ''tbody'' [] rows]]]]"

definition table_tree :: "string list list \<Rightarrow> node" where
  "table_tree rows = table_document (map tr_center rows)"

text \<open>A text without markup parses to a body that holds the text.\<close>

definition text_tree :: "string \<Rightarrow> node" where
  "text_tree txt =
    Node DocumentNode [] []
      [Node ElementNode ''html'' []
        [Node ElementNode ''head'' [] [],
         Node ElementNode ''body'' [] (if txt = [] then [] else [Node TextNode txt [] []])]]"

text \<open>Writing \<open>&lt;\<close> and \<open>&gt;\<close> for \<open><\<close> and \<open>>\<close>, and reading them back.\<close>

fun escape_lt_gt :: "string \<Rightarrow> string" where
  "escape_lt_gt [] = []"
| "escape_lt_gt (c # s) =
    (if c = CHR ''<'' then ''&lt;'' @ escape_lt_gt s
     else if c = CHR ''>'' then ''&gt;'' @ escape_lt_gt s
     else c # escape_lt_gt s)"

fun unescape_lt_gt :: "string \<Rightarrow> string" where
  "unescape_lt_gt [] = []"
| "unescape_lt_gt (c # s) =
    (if take 3 s = ''lt;'' \<and> c = CHR ''&'' then CHR ''<'' # unescape_lt_gt (drop 3 s)
     else if take 3 s = ''gt;'' \<and> c = CHR ''&'' then CHR ''>'' # unescape_lt_gt (drop 3 s)
     else c # unescape_lt_gt s)"

text \<open>
  The largest number of \<open>div\<close> elements open at once in a text: a \<open><div>\<close> tag opens
  one, a \<open></div>\<close> tag closes one; \<open>cur\<close> are open now and \<open>best\<close> is the largest number
  so far.
\<close>

fun open_divs :: "nat \<Rightarrow> nat \<Rightarrow> string \<Rightarrow> nat" where
  "open_divs cur best [] = best"
| "open_divs cur best (c # s) =
    (if take 5 (c # s) = ''<div>'' then open_divs (Suc cur) (max best (Suc cur)) s
     else if take 6 (c # s) = ''</div>'' then open_divs (cur - 1) best s
     else open_divs cur best s)"

text \<open>
  An environment that knows one document. Its HTML parser gives \<open>tree\<close> for the bytes
  \<open>content\<close> and the tree of a text for other bytes; it rejects the bytes when their open
  \<open>div\<close> elements, with \<open>html\<close> and \<open>body\<close>, are more than 512 at once (the examples
  nest no other element that deep). \<open>strconv.ParseFloat\<close> knows the text \<open>12.5\<close>,
  and the \<open>i\<close>-th insert of a transaction fails when \<open>fail = Some i\<close>.
  \<open>example_world\<close> knows the table of \<open>rows\<close>.
\<close>

definition document_world :: "string \<Rightarrow> node \<Rightarrow> nat option \<Rightarrow> real world" where
  "document_world content tree fail =
    \<lparr>ParseFloat = (\<lambda>s. if s = ''12.5'' then Some 12.5 else None),
     html_error = (\<lambda>bs. if 512 < 2 + open_divs 0 0 bs
                        then Some ''html: open stack of elements exceeds 512 nodes'' else None),
     html_tree = (\<lambda>bs. if bs = content then tree else text_tree bs),
     UnescapeString = unescape_lt_gt,
     Now = \<lparr>Year = 2024, Month = 3, Day = 2, Clock = 1\<rparr>,
     Format_RFC3339 = (\<lambda>t. ''2024-03-01T00:00:00Z''),
     json_Encode = (\<lambda>fs. Inr ''[]''),
     BeginTx_err = None,
     Prepare_err = None,
     Exec_err = (\<lambda>i args. if fail = Some i then Some ''disk I/O error'' else None),
     Commit_err = None\<rparr>"

definition example_world :: "string list list \<Rightarrow> nat option \<Rightarrow> real world" where
  "example_world rows fail = document_world (table_html rows) (table_tree rows) fail"

definition data_cells :: "string list" where
  "data_cells =
    [''Fund A**'', ''Jan 5, 2024'', ''5 January, 2024'', ''12.5'', ''12.5*'', ''n/a'',
     [], [], [], [], [], ''12.5%'']"

definition header_cells :: "string list" where
  "header_cells = [''Fund'', ''NAV'']"

definition empty_cells :: "string list" where
  "empty_cells = [[], [], [], [], [], [], [], [], [], [], [], []]"

definition example_server :: "real Server" where
  "example_server =
    \<lparr>config = \<lparr>APIKey = ''secret'', Port = ''8089'', DatabasePath = ''./funds.db''\<rparr>,
     db = \<lparr>funds_rows = [(1, [SqlText ''Old fund''])], funds_seq = 1\<rparr>\<rparr>"

text \<open>A request with the key \<open>key\<close> that uploads \<open>bytes\<close> as the file, with the date field
  \<open>date\<close>.\<close>

definition example_request :: "string \<Rightarrow> string \<Rightarrow> string \<Rightarrow> Request" where
  "example_request key bytes date =
    \<lparr>Header_Get = (\<lambda>k. if k = ''X-API-Key'' then key else []),
     Method = ''POST'',
     ParseMultipartForm = (\<lambda>n. None),
     FormFile = (\<lambda>k. if k = ''file''
                       then Inr (Reader bytes None,
                                 \<lparr>Filename = ''funds.html'', Size = int (length bytes)\<rparr>)
                       else Inl ''http: no such file''),
     FormValue = (\<lambda>k. if k = ''date'' then date else [])\<rparr>"

definition example_fund :: "string \<Rightarrow> real Fund" where
  "example_fund name =
    \<lparr>Name = name, LaunchDate = None, ValidityDate = None, Repurchase = Some 12.5,
     Offer = None, NAV = None, MTD = None, FYTD = None, CYTD = None, FY24 = None,
     FY23 = None, SinceInception = None, UploadDate = Date 2024 3 1\<rparr>"






text \<open>
  511 \<open><div>\<close> tags, none closed, and 511 \<open>div\<close> elements nested in each other, all
  closed: with \<open>html\<close> and \<open>body\<close>, 513 elements are open at once.
\<close>

definition open_divs_html :: string where
  "open_divs_html = concat (replicate 511 ''<div>'')"

definition nested_divs_html :: string where
  "nested_divs_html = concat (replicate 511 ''<div>'') @ concat (replicate 511 ''</div>'')"

section \<open>Trimming\<close>

lemma lead_width_none:
  assumes "c \<notin> hd ` set L" and "[] \<notin> set L"
  shows "lead_width L (c # t) = 0"
proof -
  have "\<not> (\<exists>w \<in> set L. take (length w) (c # t) = w)"
  proof
    assume "\<exists>w \<in> set L. take (length w) (c # t) = w"
    then obtain w where w: "w \<in> set L" and tk: "take (length w) (c # t) = w" by blast
    from w assms(2) have "w \<noteq> []" by auto
    then obtain a v where wv: "w = a # v" by (meson neq_Nil_conv)
    with tk have "a = c" by simp
    with w wv assms(1) show False by force
  qed
  then have "List.find (\<lambda>w. take (length w) (c # t) = w) L = None"
    by (simp add: find_None_iff)
  then show ?thesis by (simp add: lead_width_def)
qed

lemma strip_leading_stop: "lead_width L s = 0 \<Longrightarrow> strip_leading L s = s"
  by (simp add: strip_leading.simps)

lemma lead_width_nil: "lead_width L [] = 0"
  by (auto simp: lead_width_def find_Some_iff split: option.splits)

lemma strip_leading_nil [simp]: "strip_leading L [] = []"
  by (subst strip_leading.simps) (simp add: lead_width_nil)

lemma strip_leading_concat:
  assumes self: "\<And>w t. w \<in> set L \<Longrightarrow> lead_width L (w @ t) = length w"
    and ne: "[] \<notin> set L"
    and us: "set us \<subseteq> set L"
  shows "strip_leading L (concat us @ t) = strip_leading L t"
  using us
proof (induction us)
  case Nil
  then show ?case by simp
next
  case (Cons w us)
  then have w: "w \<in> set L" and rest: "set us \<subseteq> set L" by auto
  from w ne have "length w \<noteq> 0" by auto
  with self [OF w, of "concat us @ t"]
  have "strip_leading L (w @ concat us @ t) = strip_leading L (concat us @ t)"
    by (subst strip_leading.simps) simp
  with Cons.IH [OF rest] show ?case by simp
qed

lemma lead_width_self:
  assumes pf: "prefix_free L" and w: "w \<in> set L"
  shows "lead_width L (w @ t) = length w"
proof -
  have "take (length w) (w @ t) = w" by simp
  with w have "\<exists>u \<in> set L. take (length u) (w @ t) = u" by blast
  then obtain u where f: "List.find (\<lambda>u. take (length u) (w @ t) = u) L = Some u"
    by (cases "List.find (\<lambda>u. take (length u) (w @ t) = u) L") (auto simp: find_None_iff)
  then have u: "u \<in> set L" and tk: "take (length u) (w @ t) = u"
    by (auto simp: find_Some_iff)
  have "u = w"
  proof (cases "length u \<le> length w")
    case True
    with tk have "take (length u) w = u" by simp
    with pf u w show ?thesis by (auto simp: prefix_free_def list_all_iff)
  next
    case False
    with tk have "take (length w) u = w"
      by (metis append_eq_conv_conj append_take_drop_id nat_le_linear take_all_iff take_append)
    with pf u w show ?thesis by (auto simp: prefix_free_def list_all_iff)
  qed
  with f show ?thesis by (simp add: lead_width_def)
qed

lemma prefix_free_space: "prefix_free unicode_space"
  by code_simp

lemma prefix_free_rev_space: "prefix_free (map rev unicode_space)"
  by code_simp

lemma nil_notin_space: "[] \<notin> set unicode_space" "[] \<notin> set (map rev unicode_space)"
  by (simp_all add: unicode_space_def)

lemma decimal_no_space_start:
  "list_all (\<lambda>c. c \<notin> set (map hd unicode_space)) ''0123456789.+-eE''"
  by code_simp

lemma decimal_no_space_end:
  "list_all (\<lambda>c. c \<notin> set (map hd (map rev unicode_space))) ''0123456789.+-eE*%''"
  by code_simp

lemma TrimSpace_framed:
  assumes l: "set ws1 \<subseteq> set unicode_space" and r: "set ws2 \<subseteq> set unicode_space"
    and a: "a \<notin> hd ` set unicode_space" and z: "z \<notin> hd ` set (map rev unicode_space)"
    and s: "s = a # m" "s = n @ [z]"
  shows "TrimSpace (concat ws1 @ s @ concat ws2) = s"
proof -
  have 1: "strip_leading unicode_space (concat ws1 @ s @ concat ws2) = s @ concat ws2"
    using strip_leading_concat [of unicode_space ws1 "s @ concat ws2"]
      lead_width_self [OF prefix_free_space] nil_notin_space(1) l
      strip_leading_stop [OF lead_width_none [OF a nil_notin_space(1), of "m @ concat ws2"]]
    by (simp add: s(1))
  have 2: "rev (s @ concat ws2) = concat (map rev (rev ws2)) @ z # rev n"
    by (simp add: s(2) rev_concat)
  have 3: "set (map rev (rev ws2)) \<subseteq> set (map rev unicode_space)"
    using r by auto
  have 4: "strip_leading (map rev unicode_space) (rev (s @ concat ws2)) = z # rev n"
    using strip_leading_concat [of "map rev unicode_space" "map rev (rev ws2)" "z # rev n"]
      lead_width_self [OF prefix_free_rev_space] nil_notin_space(2) 3
      strip_leading_stop [OF lead_width_none [OF z nil_notin_space(2), of "rev n"]]
    unfolding 2 by simp
  show ?thesis
    unfolding TrimSpace_def 1 4 by (simp add: s(2))
qed

lemma TrimRight_markers:
  assumes "set marks \<subseteq> set cs" and "z \<notin> set cs"
  shows "TrimRight (n @ [z] @ marks) cs = n @ [z]"
proof -
  have "dropWhile (\<lambda>c. c \<in> set cs) (rev marks @ z # rev n) = z # rev n"
    using assms by (subst dropWhile_append2) auto
  then show ?thesis by (simp add: TrimRight_def)
qed

lemma decimal_text_ends:
  assumes "decimal_text num"
  obtains a m n z where "num = a # m" "num = n @ [z]"
    "a \<in> set ''0123456789.+-eE''" "z \<in> set ''0123456789.+-eE''"
proof -
  from assms have ne: "num \<noteq> []" and al: "\<forall>c \<in> set num. c \<in> set ''0123456789.+-eE''"
    by (simp_all add: decimal_text_def list_all_iff)
  from ne obtain a m where 1: "num = a # m" by (meson neq_Nil_conv)
  from ne obtain n z where 2: "num = n @ [z]" by (meson rev_exhaust)
  from 1 al have 3: "a \<in> set ''0123456789.+-eE''" by simp
  from 2 al have 4: "z \<in> set ''0123456789.+-eE''" by simp
  from 1 2 3 4 show thesis by (rule that)
qed

section \<open>Dates: parsing the four texts\<close>

lemma byte_digit_char: "n < 10 \<Longrightarrow> byte (digit_char n) = 48 + n"
  unfolding byte_def digit_char_def by (simp add: of_char_of)

lemma month_cases:
  assumes "1 \<le> m" and "m \<le> 12"
  shows "m \<in> {1, 2, 3, 4, 5, 6, 7, 8, 9, 10, 11, 12 :: int}"
  using assms by simp arith

lemma leap_year_isLeap: "leap_year y = isLeap y"
proof -
  have "y mod 4 = 0" if "y mod 400 = 0"
  proof -
    from that have "400 dvd y" by (simp add: dvd_eq_mod_eq_0)
    moreover have "(4::int) dvd 400" by simp
    ultimately have "4 dvd y" by (rule dvd_trans [rotated])
    then show ?thesis by (simp add: dvd_eq_mod_eq_0)
  qed
  then show ?thesis unfolding leap_year_def isLeap_def by auto
qed

lemma month_length_daysIn:
  assumes "1 \<le> m" and "m \<le> 12"
  shows "month_length y m = daysIn m y"
  using month_cases [OF assms]
  by (elim insertE emptyE) (simp_all add: month_length_def daysIn_def leap_year_isLeap)

lemma daysIn_le: "daysIn m y \<le> 31"
  by (simp add: daysIn_def)

lemma calendar_date_parts:
  assumes "calendar_date y m d"
  shows "0 \<le> y" "y \<le> 9999" "1 \<le> m" "m \<le> 12" "1 \<le> d" "d \<le> daysIn m y" "d \<le> 31"
proof -
  from assms show y: "0 \<le> y" "y \<le> 9999" and m: "1 \<le> m" "m \<le> 12" and "1 \<le> d"
    by (simp_all add: calendar_date_def)
  from assms have "d \<le> month_length y m" by (simp add: calendar_date_def)
  with month_length_daysIn [OF m] show "d \<le> daysIn m y" by simp
  with daysIn_le [of m y] show "d \<le> 31" by linarith
qed

lemma lookup_short_Mon:
  assumes "1 \<le> m" and "m \<le> 12"
  shows "lookup shortMonthNames (render_Mon m @ r) = Some (m - 1, r)"
  using month_cases [OF assms]
  by (elim insertE emptyE) (simp_all add: lookup_def shortMonthNames_def render_Mon_def or_0x20_def byte_def)

lemma lookup_long_Month:
  assumes "1 \<le> m" and "m \<le> 12"
  shows "lookup longMonthNames (render_Month m @ r) = Some (m - 1, r)"
  using month_cases [OF assms]
  by (elim insertE emptyE) (simp_all add: lookup_def longMonthNames_def render_Month_def or_0x20_def byte_def)

lemma lookup_short_Month:
  assumes "1 \<le> m" and "m \<le> 12"
  shows "lookup shortMonthNames (render_Month m @ r) = Some (m - 1, drop 3 (render_Month m) @ r)"
  using month_cases [OF assms]
  by (elim insertE emptyE) (simp_all add: lookup_def shortMonthNames_def render_Month_def or_0x20_def byte_def)

lemma Month_rest:
  assumes "1 \<le> m" and "m \<le> 12" and "m \<noteq> 5"
  shows "\<exists>c cs. drop 3 (render_Month m) = c # cs \<and> c \<noteq> CHR '' '' \<and> c \<noteq> CHR '',''"
  using month_cases [OF assms(1,2)] assms(3)
  by (elim insertE emptyE) (simp_all add: render_Month_def)

lemma Month_May: "render_Month 5 = render_Mon 5"
  by (simp add: render_Month_def render_Mon_def)

lemma digit_char_range: "n < 10 \<Longrightarrow> 48 \<le> byte (digit_char n) \<and> byte (digit_char n) \<le> 57"
  by (simp add: byte_digit_char)

lemma digit_char_neq: "n < 10 \<Longrightarrow> byte c < 48 \<or> 57 < byte c \<Longrightarrow> digit_char n \<noteq> c"
  using digit_char_range by fastforce

lemma skip_Nil: "skip val [] = Some val"
  by (subst skip.simps) simp

lemma skip_space:
  assumes "c \<noteq> CHR '' ''"
  shows "skip (CHR '' '' # c # r) '' '' = Some (c # r)"
  using assms by (subst skip.simps) (simp add: cutspace_def skip_Nil)

lemma skip_space_fail:
  assumes "c \<noteq> CHR '' ''"
  shows "skip (c # r) '' '' = None"
  using assms by (subst skip.simps) simp

lemma skip_comma:
  assumes "c \<noteq> CHR '' ''"
  shows "skip (CHR '','' # CHR '' '' # c # r) '', '' = Some (c # r)"
  using assms by (subst skip.simps) (simp add: skip_space)

lemma skip_comma_fail:
  assumes "c \<noteq> CHR '',''"
  shows "skip (c # r) '', '' = None"
  using assms by (subst skip.simps) simp

text \<open>The day\<close>

lemma render_D_head:
  assumes "1 \<le> d" and "d \<le> 31"
  obtains c cs where "render_D d = c # cs" and "48 \<le> byte c" and "byte c \<le> 57"
proof (cases "d < 10")
  case True
  with assms have "nat d < 10" by simp
  from digit_char_range [OF this] have "48 \<le> byte (digit_char (nat d))"
    and "byte (digit_char (nat d)) \<le> 57" by simp_all
  moreover from True have "render_D d = digit_char (nat d) # []" by (simp add: render_D_def)
  ultimately show ?thesis using that by blast
next
  case False
  from assms have "nat d div 10 < 10" by simp
  from digit_char_range [OF this] have "48 \<le> byte (digit_char (nat d div 10))"
    and "byte (digit_char (nat d div 10)) \<le> 57" by simp_all
  moreover from False
  have "render_D d = digit_char (nat d div 10) # [digit_char (nat d mod 10)]"
    by (simp add: render_D_def)
  ultimately show ?thesis using that by blast
qed

lemma getnum_render_D:
  assumes d: "1 \<le> d" "d \<le> 31" and c: "byte c < 48 \<or> 57 < byte c"
  shows "getnum (render_D d @ c # r) False = Some (d, c # r)"
proof (cases "d < 10")
  case True
  let ?a = "digit_char (nat d)"
  from True d have n: "nat d < 10" by simp
  have s: "render_D d @ c # r = ?a # c # r" using True by (simp add: render_D_def)
  have i0: "isDigit (?a # c # r) 0"
    using digit_char_range [OF n] by (simp add: isDigit_def)
  have i1: "\<not> isDigit (?a # c # r) 1"
    using c by (auto simp: isDigit_def)
  have "int (byte ?a) = 48 + d"
    using d by (simp add: byte_digit_char [OF n])
  then have v: "int (byte ?a) - 48 = d" by simp
  show ?thesis
    unfolding s getnum_def using i0 i1 v by simp
next
  case False
  let ?a = "digit_char (nat d div 10)" and ?b = "digit_char (nat d mod 10)"
  from d have n1: "nat d div 10 < 10" by simp
  have n2: "nat d mod 10 < 10" by simp
  have s: "render_D d @ c # r = ?a # ?b # c # r" using False by (simp add: render_D_def)
  have i0: "isDigit (?a # ?b # c # r) 0"
    using digit_char_range [OF n1] by (simp add: isDigit_def)
  have i1: "isDigit (?a # ?b # c # r) 1"
    using digit_char_range [OF n2] by (simp add: isDigit_def)
  have va: "int (byte ?a) - 48 = int (nat d div 10)"
    by (simp add: byte_digit_char [OF n1])
  have vb: "int (byte ?b) - 48 = int (nat d mod 10)"
    by (simp add: byte_digit_char [OF n2])
  have "int (nat d div 10) * 10 + int (nat d mod 10) = d"
    using d by (simp add: zdiv_int zmod_int)
  then have v: "(int (byte ?a) - 48) * 10 + (int (byte ?b) - 48) = d"
    by (simp only: va vb)
  have nth: "(?a # ?b # c # r) ! 0 = ?a" "(?a # ?b # c # r) ! 1 = ?b" by simp_all
  show ?thesis
    unfolding s getnum_def nth using i0 i1 v by simp
qed

lemma getnum_letter:
  assumes "byte c < 48 \<or> 57 < byte c"
  shows "getnum (c # r) fixed = None"
  using assms by (auto simp: getnum_def isDigit_def)

text \<open>The year\<close>

lemma year_digits:
  fixes y :: int
  assumes "0 \<le> y" and "y \<le> 9999"
  shows "nat y div 1000 < 10"
    and "((int (nat y div 1000) * 10 + int (nat y div 100 mod 10)) * 10
           + int (nat y div 10 mod 10)) * 10 + int (nat y mod 10) = y"
proof -
  from assms show "nat y div 1000 < 10" by simp
  have 1: "y div 10 * 10 + y mod 10 = y" by simp
  have "y div 100 = y div 10 div 10" using zdiv_zmult2_eq [of 10 y 10] by simp
  then have 2: "y div 100 * 10 + y div 10 mod 10 = y div 10"
    using div_mult_mod_eq [of "y div 10" 10] by simp
  have "y div 1000 = y div 100 div 10" using zdiv_zmult2_eq [of 10 y 100] by simp
  then have 3: "y div 1000 * 10 + y div 100 mod 10 = y div 100"
    using div_mult_mod_eq [of "y div 100" 10] by simp
  from assms have "((int (nat y div 1000) * 10 + int (nat y div 100 mod 10)) * 10
           + int (nat y div 10 mod 10)) * 10 + int (nat y mod 10)
      = ((y div 1000 * 10 + y div 100 mod 10) * 10 + y div 10 mod 10) * 10 + y mod 10"
    by (simp add: zdiv_int zmod_int)
  also have "\<dots> = y" by (simp only: 1 2 3)
  finally show "((int (nat y div 1000) * 10 + int (nat y div 100 mod 10)) * 10
           + int (nat y div 10 mod 10)) * 10 + int (nat y mod 10) = y" .
qed

lemma render_YYYY_head:
  assumes "0 \<le> y" and "y \<le> 9999"
  obtains c cs where "render_YYYY y = c # cs" and "48 \<le> byte c" and "byte c \<le> 57"
proof -
  from digit_char_range [OF year_digits(1) [OF assms]]
  have "48 \<le> byte (digit_char (nat y div 1000))" "byte (digit_char (nat y div 1000)) \<le> 57"
    by simp_all
  moreover have "render_YYYY y = digit_char (nat y div 1000) #
      [digit_char (nat y div 100 mod 10), digit_char (nat y div 10 mod 10), digit_char (nat y mod 10)]"
    by (simp add: render_YYYY_def)
  ultimately show ?thesis using that by blast
qed

lemma leadingInt_render_YYYY:
  assumes "0 \<le> y" and "y \<le> 9999"
  shows "leadingInt (render_YYYY y) = (y, [])"
proof -
  let ?a = "nat y div 1000" and ?b = "nat y div 100 mod 10"
    and ?c = "nat y div 10 mod 10" and ?d = "nat y mod 10"
  note a = year_digits(1) [OF assms]
  have b: "?b < 10" and c: "?c < 10" and d: "?d < 10" by simp_all
  note r = digit_char_range [OF a] digit_char_range [OF b] digit_char_range [OF c]
    digit_char_range [OF d]
  have tw: "takeWhile (\<lambda>c. 48 \<le> byte c \<and> byte c \<le> 57) (render_YYYY y) = render_YYYY y"
    using r by (simp add: render_YYYY_def)
  have dw: "dropWhile (\<lambda>c. 48 \<le> byte c \<and> byte c \<le> 57) (render_YYYY y) = []"
    using r by (simp add: render_YYYY_def)
  have va: "int (byte (digit_char ?a)) - 48 = int ?a" by (simp add: byte_digit_char [OF a])
  have vb: "int (byte (digit_char ?b)) - 48 = int ?b" by (simp add: byte_digit_char [OF b])
  have vc: "int (byte (digit_char ?c)) - 48 = int ?c" by (simp add: byte_digit_char [OF c])
  have vd: "int (byte (digit_char ?d)) - 48 = int ?d" by (simp add: byte_digit_char [OF d])
  have "foldl (\<lambda>x c. x * 10 + (int (byte c) - 48)) 0 (render_YYYY y)
      = ((int ?a * 10 + int ?b) * 10 + int ?c) * 10 + int ?d"
    unfolding render_YYYY_def foldl.simps va vb vc vd by simp
  also have "\<dots> = y" by (rule year_digits(2) [OF assms])
  finally show ?thesis
    unfolding leadingInt_def tw dw by simp
qed

lemma atoi_render_YYYY:
  assumes "0 \<le> y" and "y \<le> 9999"
  shows "atoi (render_YYYY y) = Some y"
proof -
  from render_YYYY_head [OF assms] obtain c cs
    where s: "render_YYYY y = c # cs" and c: "48 \<le> byte c" "byte c \<le> 57" by blast
  from c have neq: "c \<noteq> CHR ''-''" "c \<noteq> CHR ''+''" by (auto simp: byte_def)
  have li: "leadingInt (c # cs) = (y, [])"
    using leadingInt_render_YYYY [OF assms] by (simp only: s)
  show ?thesis
    unfolding atoi_def s Let_def using neq li by simp
qed

lemma parse_year:
  assumes "0 \<le> y" and "y \<le> 9999"
  shows "parse_chunks [stdLongYear] (y0, m, d) (render_YYYY y) = parse_chunks [] (y, m, d) []"
proof -
  have len: "length (render_YYYY y) = 4" by (simp add: render_YYYY_def)
  from render_YYYY_head [OF assms] obtain c cs
    where s: "render_YYYY y = c # cs" and c: "48 \<le> byte c" "byte c \<le> 57" by blast
  from c have dig: "isDigit (render_YYYY y) 0" by (simp add: isDigit_def s)
  have "parse_chunks [stdLongYear] (y0, m, d) (render_YYYY y)
      = (case atoi (take 4 (render_YYYY y)) of None \<Rightarrow> None
         | Some year \<Rightarrow> parse_chunks [] (year, m, d) (drop 4 (render_YYYY y)))"
    using len dig by (simp only: parse_chunks.simps) simp
  also have "\<dots> = parse_chunks [] (y, m, d) []"
    using len by (simp add: atoi_render_YYYY [OF assms])
  finally show ?thesis .
qed

lemma parse_end:
  assumes "1 \<le> m" and "1 \<le> d" and "d \<le> daysIn m y"
  shows "parse_chunks [] (y, m, d) [] = Some (Date y m d)"
  using assms by simp

lemma parse_comma_year:
  assumes y: "0 \<le> y" "y \<le> 9999" and m: "1 \<le> m" and d: "1 \<le> d" "d \<le> daysIn m y"
  shows "parse_chunks [Lit '', '', stdLongYear] (y0, m, d) (CHR '','' # CHR '' '' # render_YYYY y)
       = Some (Date y m d)"
proof -
  from render_YYYY_head [OF y] obtain c cs
    where s: "render_YYYY y = c # cs" and c: "48 \<le> byte c" "byte c \<le> 57" by blast
  from c have "c \<noteq> CHR '' ''" by (auto simp: byte_def)
  from skip_comma [OF this, of cs]
  have "skip (CHR '','' # CHR '' '' # render_YYYY y) '', '' = Some (render_YYYY y)"
    by (simp only: s)
  then have "parse_chunks [Lit '', '', stdLongYear] (y0, m, d) (CHR '','' # CHR '' '' # render_YYYY y)
      = parse_chunks [stdLongYear] (y0, m, d) (render_YYYY y)"
    by (simp only: parse_chunks.simps option.case)
  also have "\<dots> = Some (Date y m d)"
    by (simp only: parse_year [OF y] parse_end [OF m d])
  finally show ?thesis .
qed

text \<open>First characters\<close>

lemma digit_byte_cases:
  assumes "48 \<le> byte c" and "byte c \<le> 57"
  shows "c \<in> set ''0123456789''"
proof -
  from assms have "byte c \<in> {48, 49, 50, 51, 52, 53, 54, 55, 56, 57}" by simp arith
  also have "{48, 49, 50, 51, 52, 53, 54, 55, 56, 57} = byte ` set ''0123456789''"
    by (simp add: byte_def)
  finally obtain k where k: "k \<in> set ''0123456789''" and "byte c = byte k" by blast
  then have "c = k" by (simp add: byte_def)
  with k show ?thesis by simp
qed

lemma letter_facts:
  assumes "c \<in> set ''JFMASOND''"
  shows "c \<noteq> CHR '' ''" and "byte c < 48 \<or> 57 < byte c"
  using assms by (auto simp: byte_def)

lemma render_Mon_head:
  assumes "1 \<le> m" and "m \<le> 12"
  shows "\<exists>c cs. render_Mon m = c # cs \<and> c \<in> set ''JFMASOND''"
  using month_cases [OF assms]
  by (elim insertE emptyE) (simp_all add: render_Mon_def)

lemma render_Month_head:
  assumes "1 \<le> m" and "m \<le> 12"
  shows "\<exists>c cs. render_Month m = c # cs \<and> c \<in> set ''JFMASOND''"
  using month_cases [OF assms]
  by (elim insertE emptyE) (simp_all add: render_Month_def)

lemma lookup_digit:
  assumes "48 \<le> byte c" and "byte c \<le> 57"
  shows "lookup shortMonthNames (c # r) = None" and "lookup longMonthNames (c # r) = None"
proof -
  have "\<forall>c \<in> set ''0123456789''.
      lookup shortMonthNames (c # r) = None \<and> lookup longMonthNames (c # r) = None"
    by (simp add: lookup_def shortMonthNames_def longMonthNames_def or_0x20_def byte_def)
  with digit_byte_cases [OF assms]
  show "lookup shortMonthNames (c # r) = None" and "lookup longMonthNames (c # r) = None"
    by blast+
qed

text \<open>The layouts on the texts\<close>

lemma parse_space_day_comma_year:
  assumes "calendar_date y m d"
  shows "parse_chunks [Lit '' '', stdDay, Lit '', '', stdLongYear] (y0, m, d0)
           (CHR '' '' # render_D d @ CHR '','' # CHR '' '' # render_YYYY y)
         = Some (Date y m d)"
proof -
  note p = calendar_date_parts [OF assms]
  let ?rest = "CHR '','' # CHR '' '' # render_YYYY y"
  from render_D_head [OF p(5) p(7)] obtain c cs
    where s: "render_D d = c # cs" and c: "48 \<le> byte c" "byte c \<le> 57" by blast
  from c have "c \<noteq> CHR '' ''" by (auto simp: byte_def)
  from skip_space [OF this, of "cs @ ?rest"]
  have 1: "skip (CHR '' '' # render_D d @ ?rest) '' '' = Some (render_D d @ ?rest)"
    by (simp add: s)
  have "byte (CHR '','') < 48 \<or> 57 < byte (CHR '','')" by (simp add: byte_def)
  from getnum_render_D [OF p(5) p(7) this]
  have 2: "getnum (render_D d @ ?rest) False = Some (d, ?rest)" .
  have "parse_chunks [Lit '' '', stdDay, Lit '', '', stdLongYear] (y0, m, d0)
           (CHR '' '' # render_D d @ ?rest)
      = parse_chunks [Lit '', '', stdLongYear] (y0, m, d) ?rest"
    by (simp only: parse_chunks.simps 1 2 option.case prod.case)
  also have "\<dots> = Some (Date y m d)"
    by (rule parse_comma_year [OF p(1) p(2) p(3) p(5) p(6)])
  finally show ?thesis .
qed

lemma parse_Mon_D_YYYY:
  assumes "calendar_date y m d"
  shows "time_Parse layout_Jan_2_2006 (render Mon_D_YYYY y m d) = Some (Date y m d)"
proof -
  note p = calendar_date_parts [OF assms]
  let ?rest = "CHR '' '' # render_D d @ CHR '','' # CHR '' '' # render_YYYY y"
  have r: "render Mon_D_YYYY y m d = render_Mon m @ ?rest" by simp
  have "time_Parse layout_Jan_2_2006 (render Mon_D_YYYY y m d)
      = parse_chunks [Lit '' '', stdDay, Lit '', '', stdLongYear] (0, m - 1 + 1, - 1) ?rest"
    unfolding r time_Parse_def layout_Jan_2_2006_def
    by (simp only: parse_chunks.simps lookup_short_Mon [OF p(3) p(4)] option.case prod.case)
  also have "\<dots> = Some (Date y m d)"
    using parse_space_day_comma_year [OF assms] by simp
  finally show ?thesis .
qed

lemma parse_Month_D_YYYY:
  assumes "calendar_date y m d"
  shows "time_Parse layout_January_2_2006 (render Month_D_YYYY y m d) = Some (Date y m d)"
proof -
  note p = calendar_date_parts [OF assms]
  let ?rest = "CHR '' '' # render_D d @ CHR '','' # CHR '' '' # render_YYYY y"
  have r: "render Month_D_YYYY y m d = render_Month m @ ?rest" by simp
  have "time_Parse layout_January_2_2006 (render Month_D_YYYY y m d)
      = parse_chunks [Lit '' '', stdDay, Lit '', '', stdLongYear] (0, m - 1 + 1, - 1) ?rest"
    unfolding r time_Parse_def layout_January_2_2006_def
    by (simp only: parse_chunks.simps lookup_long_Month [OF p(3) p(4)] option.case prod.case)
  also have "\<dots> = Some (Date y m d)"
    using parse_space_day_comma_year [OF assms] by simp
  finally show ?thesis .
qed

text \<open>A layout that starts with the day, up to the month name.\<close>

lemma parse_day_space:
  assumes "calendar_date y m d" and "c \<in> set ''JFMASOND''"
  shows "parse_chunks (stdDay # Lit '' '' # layout) (0, - 1, - 1) (render_D d @ CHR '' '' # c # r)
       = parse_chunks layout (0, - 1, d) (c # r)"
proof -
  note p = calendar_date_parts [OF assms(1)]
  have "byte (CHR '' '') < 48 \<or> 57 < byte (CHR '' '')" by (simp add: byte_def)
  from getnum_render_D [OF p(5) p(7) this]
  have 1: "getnum (render_D d @ CHR '' '' # c # r) False = Some (d, CHR '' '' # c # r)" .
  from letter_facts(1) [OF assms(2)]
  have 2: "skip (CHR '' '' # c # r) '' '' = Some (c # r)" by (rule skip_space)
  show ?thesis
    by (simp only: parse_chunks.simps 1 2 option.case prod.case)
qed

lemma parse_D_Mon_YYYY:
  assumes "calendar_date y m d"
  shows "time_Parse layout_2_Jan_2006 (render D_Mon_YYYY y m d) = Some (Date y m d)"
proof -
  note p = calendar_date_parts [OF assms]
  let ?rest = "CHR '','' # CHR '' '' # render_YYYY y"
  from render_Mon_head [OF p(3) p(4)] obtain c cs
    where s: "render_Mon m = c # cs" and c: "c \<in> set ''JFMASOND''" by blast
  have r: "render D_Mon_YYYY y m d = render_D d @ CHR '' '' # c # (cs @ ?rest)"
    by (simp add: s)
  have n: "c # (cs @ ?rest) = render_Mon m @ ?rest" by (simp add: s)
  have "time_Parse layout_2_Jan_2006 (render D_Mon_YYYY y m d)
      = parse_chunks [stdMonth, Lit '', '', stdLongYear] (0, - 1, d) (c # (cs @ ?rest))"
    unfolding r time_Parse_def layout_2_Jan_2006_def
    by (rule parse_day_space [OF assms c])
  also have "\<dots> = parse_chunks [Lit '', '', stdLongYear] (0, m - 1 + 1, d) ?rest"
    unfolding n
    by (simp only: parse_chunks.simps lookup_short_Mon [OF p(3) p(4)] option.case prod.case)
  also have "\<dots> = Some (Date y m d)"
    using parse_comma_year [OF p(1) p(2) p(3) p(5) p(6)] by simp
  finally show ?thesis .
qed

lemma parse_D_Month_YYYY:
  assumes "calendar_date y m d"
  shows "time_Parse layout_2_January_2006 (render D_Month_YYYY y m d) = Some (Date y m d)"
proof -
  note p = calendar_date_parts [OF assms]
  let ?rest = "CHR '','' # CHR '' '' # render_YYYY y"
  from render_Month_head [OF p(3) p(4)] obtain c cs
    where s: "render_Month m = c # cs" and c: "c \<in> set ''JFMASOND''" by blast
  have r: "render D_Month_YYYY y m d = render_D d @ CHR '' '' # c # (cs @ ?rest)"
    by (simp add: s)
  have n: "c # (cs @ ?rest) = render_Month m @ ?rest" by (simp add: s)
  have "time_Parse layout_2_January_2006 (render D_Month_YYYY y m d)
      = parse_chunks [stdLongMonth, Lit '', '', stdLongYear] (0, - 1, d) (c # (cs @ ?rest))"
    unfolding r time_Parse_def layout_2_January_2006_def
    by (rule parse_day_space [OF assms c])
  also have "\<dots> = parse_chunks [Lit '', '', stdLongYear] (0, m - 1 + 1, d) ?rest"
    unfolding n
    by (simp only: parse_chunks.simps lookup_long_Month [OF p(3) p(4)] option.case prod.case)
  also have "\<dots> = Some (Date y m d)"
    using parse_comma_year [OF p(1) p(2) p(3) p(5) p(6)] by simp
  finally show ?thesis .
qed

text \<open>Earlier layouts on a text: they fail, or give the same date\<close>

lemma parse_Jan_on_day_first:
  assumes "calendar_date y m d" and "l = D_Mon_YYYY \<or> l = D_Month_YYYY"
  shows "time_Parse layout_Jan_2_2006 (render l y m d) = None"
    and "time_Parse layout_January_2_2006 (render l y m d) = None"
proof -
  note p = calendar_date_parts [OF assms(1)]
  from render_D_head [OF p(5) p(7)] obtain c cs
    where s: "render_D d = c # cs" and c: "48 \<le> byte c" "byte c \<le> 57" by blast
  from assms(2) obtain r where r: "render l y m d = c # r"
    by (auto simp: s)
  show "time_Parse layout_Jan_2_2006 (render l y m d) = None"
    unfolding r time_Parse_def layout_Jan_2_2006_def
    by (simp only: parse_chunks.simps lookup_digit(1) [OF c] option.case)
  show "time_Parse layout_January_2_2006 (render l y m d) = None"
    unfolding r time_Parse_def layout_January_2_2006_def
    by (simp only: parse_chunks.simps lookup_digit(2) [OF c] option.case)
qed

lemma parse_2_Jan_on_Month_D_YYYY:
  assumes "calendar_date y m d"
  shows "time_Parse layout_2_Jan_2006 (render Month_D_YYYY y m d) = None"
proof -
  note p = calendar_date_parts [OF assms(1)]
  from render_Month_head [OF p(3) p(4)] obtain c cs
    where s: "render_Month m = c # cs" and c: "c \<in> set ''JFMASOND''" by blast
  obtain r where r: "render Month_D_YYYY y m d = c # r" by (simp add: s)
  show ?thesis
    unfolding r time_Parse_def layout_2_Jan_2006_def
    by (simp only: parse_chunks.simps getnum_letter [OF letter_facts(2) [OF c]] option.case)
qed

lemma parse_Jan_on_Month_D_YYYY:
  assumes "calendar_date y m d"
  shows "time_Parse layout_Jan_2_2006 (render Month_D_YYYY y m d) = None
       \<or> time_Parse layout_Jan_2_2006 (render Month_D_YYYY y m d) = Some (Date y m d)"
proof (cases "m = 5")
  case True
  then have "render Month_D_YYYY y m d = render Mon_D_YYYY y m d" by (simp add: Month_May)
  with parse_Mon_D_YYYY [OF assms] show ?thesis by simp
next
  case False
  note p = calendar_date_parts [OF assms(1)]
  let ?rest = "CHR '' '' # render_D d @ CHR '','' # CHR '' '' # render_YYYY y"
  from Month_rest [OF p(3) p(4) False] obtain c cs
    where s: "drop 3 (render_Month m) = c # cs" and c: "c \<noteq> CHR '' ''" by blast
  have r: "render Month_D_YYYY y m d = render_Month m @ ?rest" by simp
  have sk: "skip (c # cs @ ?rest) '' '' = None" using c by (rule skip_space_fail)
  have "time_Parse layout_Jan_2_2006 (render Month_D_YYYY y m d) = None"
    unfolding r time_Parse_def layout_Jan_2_2006_def
    by (simp only: parse_chunks.simps lookup_short_Month [OF p(3) p(4)] s append_Cons sk
        option.case prod.case)
  then show ?thesis ..
qed

lemma parse_2_Jan_on_D_Month_YYYY:
  assumes "calendar_date y m d"
  shows "time_Parse layout_2_Jan_2006 (render D_Month_YYYY y m d) = None
       \<or> time_Parse layout_2_Jan_2006 (render D_Month_YYYY y m d) = Some (Date y m d)"
proof (cases "m = 5")
  case True
  then have "render D_Month_YYYY y m d = render D_Mon_YYYY y m d" by (simp add: Month_May)
  with parse_D_Mon_YYYY [OF assms] show ?thesis by simp
next
  case False
  note p = calendar_date_parts [OF assms(1)]
  let ?rest = "CHR '','' # CHR '' '' # render_YYYY y"
  from render_Month_head [OF p(3) p(4)] obtain a as
    where h: "render_Month m = a # as" and a: "a \<in> set ''JFMASOND''" by blast
  from Month_rest [OF p(3) p(4) False] obtain c cs
    where s: "drop 3 (render_Month m) = c # cs" and c: "c \<noteq> CHR '',''" by blast
  have r: "render D_Month_YYYY y m d = render_D d @ CHR '' '' # a # (as @ ?rest)"
    by (simp add: h)
  have n: "a # (as @ ?rest) = render_Month m @ ?rest" by (simp add: h)
  have sk: "skip (c # cs @ ?rest) '', '' = None" using c by (rule skip_comma_fail)
  have "time_Parse layout_2_Jan_2006 (render D_Month_YYYY y m d)
      = parse_chunks [stdMonth, Lit '', '', stdLongYear] (0, - 1, d) (a # (as @ ?rest))"
    unfolding r time_Parse_def layout_2_Jan_2006_def
    by (rule parse_day_space [OF assms a])
  also have "\<dots> = None"
    unfolding n
    by (simp only: parse_chunks.simps lookup_short_Month [OF p(3) p(4)] s append_Cons sk
        option.case prod.case)
  finally show ?thesis ..
qed

text \<open>The loop over the layouts\<close>

lemma try_formats_first:
  assumes "i < length fs" and "time_Parse (fs ! i) v = Some t"
    and "\<forall>j<i. time_Parse (fs ! j) v = None"
  shows "try_formats fs v = Some t"
  using assms
proof (induction fs arbitrary: i)
  case Nil
  then show ?case by simp
next
  case (Cons f fs)
  show ?case
  proof (cases i)
    case 0
    with Cons.prems show ?thesis by simp
  next
    case (Suc k)
    with Cons.prems have "time_Parse f v = None" by auto
    moreover from Suc Cons.prems have "try_formats fs v = Some t"
      by (intro Cons.IH [of k]) auto
    ultimately show ?thesis by simp
  qed
qed

lemma try_formats_none:
  assumes "\<forall>j<length fs. time_Parse (fs ! j) v = None"
  shows "try_formats fs v = None"
  using assms
proof (induction fs)
  case Nil
  then show ?case by simp
next
  case (Cons f fs)
  from Cons.prems have "time_Parse f v = None" by auto
  moreover from Cons.prems have "\<forall>j<length fs. time_Parse (fs ! j) v = None" by auto
  ultimately show ?case using Cons.IH by simp
qed

lemma try_formats_render:
  assumes "calendar_date y m d"
  shows "try_formats formats (render l y m d) = Some (Date y m d)"
proof (cases l)
  case Mon_D_YYYY
  with parse_Mon_D_YYYY [OF assms] show ?thesis by (simp add: formats_def)
next
  case D_Mon_YYYY
  with parse_Jan_on_day_first(1) [OF assms, of l] parse_D_Mon_YYYY [OF assms]
  show ?thesis by (simp add: formats_def)
next
  case Month_D_YYYY
  with parse_Jan_on_Month_D_YYYY [OF assms] parse_2_Jan_on_Month_D_YYYY [OF assms]
    parse_Month_D_YYYY [OF assms]
  show ?thesis by (auto simp: formats_def)
next
  case D_Month_YYYY
  with parse_Jan_on_day_first [OF assms, of l] parse_2_Jan_on_D_Month_YYYY [OF assms]
    parse_D_Month_YYYY [OF assms]
  show ?thesis by (auto simp: formats_def)
qed

lemma date_text_no_space:
  "list_all (\<lambda>c. c \<notin> set (map hd unicode_space) \<and> c \<notin> set (map hd (map rev unicode_space)))
     ''0123456789JFMASOND''"
  by code_simp

lemma TrimSpace_render:
  assumes "calendar_date y m d"
  shows "TrimSpace (render l y m d) = render l y m d" and "render l y m d \<noteq> []"
proof -
  note p = calendar_date_parts [OF assms]
  have ok: "\<And>c. c \<in> set ''0123456789JFMASOND'' \<Longrightarrow>
      c \<notin> hd ` set unicode_space \<and> c \<notin> hd ` set (map rev unicode_space)"
    using date_text_no_space unfolding list_all_iff set_map by blast
  have sub1: "set ''0123456789'' \<subseteq> set ''0123456789JFMASOND''" by simp
  have sub2: "set ''JFMASOND'' \<subseteq> set ''0123456789JFMASOND''" by simp
  from render_D_head [OF p(5) p(7)] obtain c1 cs1
    where D: "render_D d = c1 # cs1" and c1: "48 \<le> byte c1" "byte c1 \<le> 57" by blast
  from render_Mon_head [OF p(3) p(4)] obtain c2 cs2
    where M: "render_Mon m = c2 # cs2" and c2: "c2 \<in> set ''JFMASOND''" by blast
  from render_Month_head [OF p(3) p(4)] obtain c3 cs3
    where L: "render_Month m = c3 # cs3" and c3: "c3 \<in> set ''JFMASOND''" by blast
  from digit_byte_cases [OF c1] sub1 have c1': "c1 \<in> set ''0123456789JFMASOND''" by blast
  from c2 sub2 have c2': "c2 \<in> set ''0123456789JFMASOND''" by blast
  from c3 sub2 have c3': "c3 \<in> set ''0123456789JFMASOND''" by blast
  obtain a r where first: "render l y m d = a # r" and a: "a \<in> set ''0123456789JFMASOND''"
    using c1' c2' c3' by (cases l) (simp_all add: D M L)
  let ?z = "digit_char (nat y mod 10)"
  have "nat y mod 10 < 10" by simp
  from digit_char_range [OF this] have "?z \<in> set ''0123456789''"
    by (intro digit_byte_cases) simp_all
  with sub1 have z: "?z \<in> set ''0123456789JFMASOND''" by blast
  obtain n where last: "render l y m d = n @ [?z]"
    by (cases l) (simp_all add: render_YYYY_def)
  from ok [OF a] ok [OF z]
  have "TrimSpace (concat [] @ render l y m d @ concat []) = render l y m d"
    by (intro TrimSpace_framed [OF _ _ _ _ first last]) simp_all
  then show "TrimSpace (render l y m d) = render l y m d" by simp
  from first show "render l y m d \<noteq> []" by simp
qed

section \<open>Extraction: the rows of a document\<close>

lemma Each_row_filter:
  "Each_row w d funds rows
     = funds @ map (\<lambda>row. row_fund w (td_below row) d)
                (filter (\<lambda>row. 12 \<le> length (td_below row)) rows)"
proof (induction rows arbitrary: funds)
  case Nil
  show ?case by simp
next
  case (Cons row rows)
  show ?case
  proof (cases "12 \<le> length (td_below row)")
    case True
    then have "\<not> int (length (Find [row] (Selector ''td'' []))) < 12"
      by (simp add: td_below_def)
    then show ?thesis
      using True Cons.IH [of "funds @ [row_fund w (td_below row) d]"]
      by (simp add: Let_def td_below_def)
  next
    case False
    then have "int (length (Find [row] (Selector ''td'' []))) < 12"
      by (simp add: td_below_def)
    then show ?thesis
      using False Cons.IH [of funds]
      by (simp add: Let_def td_below_def)
  qed
qed

lemma NewDocumentFromReader_string:
  "NewDocumentFromReader w (strings_NewReader content)
     = (case html_error w content of Some err \<Rightarrow> Inl err | None \<Rightarrow> Inr [html_tree w content])"
  by (simp add: NewDocumentFromReader_def html_Parse_def strings_NewReader_def
      split: option.split)

lemma parseHTML_cases:
  "parseHTML w content d
     = (case html_error w content of
          Some err \<Rightarrow> Inl (''failed to parse HTML document: '' @ err)
        | None \<Rightarrow>
            Inr (map (\<lambda>row. row_fund w (td_below row) d) (extracted_rows (html_tree w content))))"
  by (simp add: parseHTML_def NewDocumentFromReader_string Each_row_filter extracted_rows_def
      candidate_rows_def split: option.split)

lemma parseHTML_rows:
  assumes "html_error w content = None"
  shows "parseHTML w content d
     = Inr (map (\<lambda>row. row_fund w (td_below row) d) (extracted_rows (html_tree w content)))"
  using assms by (simp add: parseHTML_cases)

lemma parseHTML_Inr_accepted:
  assumes "parseHTML w content d = Inr funds"
  shows "html_error w content = None"
  using assms by (simp add: parseHTML_cases split: option.splits)



text \<open>The example documents\<close>

lemma example_tree:
  "html_tree (example_world rows fail) (table_html rows) = table_tree rows"
  by (simp add: example_world_def document_world_def)

lemma example_accepted:
  "html_error (example_world rows fail) (table_html [data_cells, header_cells, empty_cells]) = None"
proof -
  have "open_divs 0 0 (table_html [data_cells, header_cells, empty_cells]) = 0"
    by code_simp
  then show ?thesis by (simp add: example_world_def document_world_def)
qed

lemma example_candidates:
  "candidate_rows (table_tree [data_cells, header_cells, empty_cells])
     = [tr_center data_cells, tr_center header_cells, tr_center empty_cells]"
  by code_simp

lemma example_columns:
  "length (td_below (tr_center data_cells)) = 12"
  "length (td_below (tr_center header_cells)) = 2"
  "length (td_below (tr_center empty_cells)) = 12"
  by code_simp+


lemma example_extracted:
  "extracted_rows (table_tree [data_cells, header_cells, empty_cells])
     = [tr_center data_cells, tr_center empty_cells]"
  by (simp add: extracted_rows_def example_candidates example_columns)

lemma open_divs_best: "best \<le> open_divs cur best s"
proof (induction s arbitrary: cur best)
  case Nil
  show ?case by simp
next
  case (Cons c s)
  have "best \<le> max best (Suc cur)" by simp
  also have "\<dots> \<le> open_divs (Suc cur) (max best (Suc cur)) s" by (rule Cons)
  finally have 1: "best \<le> open_divs (Suc cur) (max best (Suc cur)) s" .
  have 2: "best \<le> open_divs (cur - 1) best s" and 3: "best \<le> open_divs cur best s"
    by (rule Cons)+
  from 1 2 3 show ?case by (simp only: open_divs.simps split: if_split) simp
qed

lemma open_divs_tag:
  "open_divs cur best (''<div>'' @ s) = open_divs (Suc cur) (max best (Suc cur)) s"
  by simp

lemma open_divs_replicate:
  assumes "cur \<le> best"
  shows "cur + k \<le> open_divs cur best (concat (replicate k ''<div>'') @ s)"
  using assms
proof (induction k arbitrary: cur best)
  case 0
  with open_divs_best [of best cur s] show ?case by simp
next
  case (Suc k)
  have "Suc cur \<le> max best (Suc cur)" by simp
  from Suc.IH [OF this]
  have "Suc cur + k \<le> open_divs (Suc cur) (max best (Suc cur)) (concat (replicate k ''<div>'') @ s)" .
  moreover have "concat (replicate (Suc k) ''<div>'') @ s
      = ''<div>'' @ (concat (replicate k ''<div>'') @ s)" by simp
  ultimately show ?case by (simp only: open_divs_tag)
qed

lemma deep_rejected:
  "html_error (document_world content tree fail) open_divs_html
     = Some ''html: open stack of elements exceeds 512 nodes''"
  "html_error (document_world content tree fail) nested_divs_html
     = Some ''html: open stack of elements exceeds 512 nodes''"
proof -
  have "0 + 511 \<le> open_divs 0 0 (concat (replicate 511 ''<div>'') @ [])"
    by (rule open_divs_replicate) simp
  then have 1: "511 \<le> open_divs 0 0 open_divs_html"
    by (simp only: open_divs_html_def append_Nil2 add_0)
  have "0 + 511 \<le> open_divs 0 0 (concat (replicate 511 ''<div>'')
      @ concat (replicate 511 ''</div>''))"
    by (rule open_divs_replicate) simp
  then have 2: "511 \<le> open_divs 0 0 nested_divs_html"
    by (simp only: nested_divs_html_def add_0)
  from 1 show "html_error (document_world content tree fail) open_divs_html
     = Some ''html: open stack of elements exceeds 512 nodes''"
    by (simp add: document_world_def)
  from 2 show "html_error (document_world content tree fail) nested_divs_html
     = Some ''html: open stack of elements exceeds 512 nodes''"
    by (simp add: document_world_def)
qed





lemma TrimRight_last: "TrimRight s cs = [] \<or> last (TrimRight s cs) \<notin> set cs"
proof (cases "dropWhile (\<lambda>c. c \<in> set cs) (rev s)")
  case Nil
  then show ?thesis by (simp add: TrimRight_def)
next
  case (Cons a as)
  then have "a \<notin> set cs" using hd_dropWhile [of "\<lambda>c. c \<in> set cs" "rev s"] by simp
  with Cons show ?thesis by (simp add: TrimRight_def)
qed

lemma Name_row_fund:
  assumes "12 \<le> length columns"
  shows "Name (row_fund w columns d) = TrimRight (TrimSpace (getNodeText (columns ! 0))) ''*''"
proof -
  from assms have "columns \<noteq> []" by auto
  then show ?thesis by (simp add: row_fund_def cleanText_def Eq_def Text_def)
qed

lemma example_names:
  "map (\<lambda>row. TrimRight (TrimSpace (getNodeText (td_below row ! 0))) ''*'')
     [tr_center data_cells, tr_center empty_cells] = [''Fund A'', []]"
  by code_simp
section \<open>Persistence and the handler: auxiliary facts\<close>

lemma insert_funds_first_failure:
  assumes "i < length funds"
    and "Exec_err w (k + i) (insert_args w (funds ! i)) = Some err"
    and "\<forall>j<i. Exec_err w (k + j) (insert_args w (funds ! j)) = None"
  shows "insert_funds w k tx funds
       = Inl (''failed to insert fund '' @ [CHR 0x27] @ Name (funds ! i) @ [CHR 0x27] @ '': '' @ err)"
  using assms
proof (induction funds arbitrary: i k tx)
  case Nil
  then show ?case by simp
next
  case (Cons fund funds)
  show ?case
  proof (cases i)
    case 0
    with Cons.prems show ?thesis by (simp add: ExecContext_def)
  next
    case (Suc n)
    from Cons.prems(3) Suc have ok: "Exec_err w k (insert_args w fund) = None" by force
    from Cons.prems(1) Suc have 1: "n < length funds" by simp
    from Cons.prems(2) Suc have 2: "Exec_err w (Suc k + n) (insert_args w (funds ! n)) = Some err"
      by simp
    have 3: "\<forall>j<n. Exec_err w (Suc k + j) (insert_args w (funds ! j)) = None"
    proof (intro allI impI)
      fix j assume "j < n"
      with Suc have "Suc j < i" by simp
      with Cons.prems(3) have "Exec_err w (k + Suc j) (insert_args w ((fund # funds) ! Suc j)) = None"
        by blast
      then show "Exec_err w (Suc k + j) (insert_args w (funds ! j)) = None" by simp
    qed
    from Cons.IH [OF 1 2 3] ok Suc show ?thesis by (simp add: ExecContext_def)
  qed
qed

lemma Status_http_Error [simp]: "Status (http_Error msg code) = code"
  by (simp add: http_Error_def)

lemma example_no_rows:
  "uploadHandler (example_world [header_cells] None) example_server
     (example_request ''secret'' (table_html [header_cells]) [])
   = (http_Error ''No funds found in the provided HTML'' StatusBadRequest, example_server)"
  by code_simp

section \<open>The number normaliser\<close>

text \<open>
  C3. A decimal text followed by \<open>*\<close> and \<open>%\<close> markers, the whole between white space,
  normalises to what \<open>strconv.ParseFloat\<close> gives for the decimal text alone, which is also
  the result for the stripped text; text that is empty after stripping, or that
  \<open>strconv.ParseFloat\<close> rejects, normalises to absent.
\<close>

theorem parseFloat_strips_space_and_markers:
  fixes ParseFloat :: "string \<Rightarrow> 'f option"
  assumes num: "decimal_text num"
    and ws1: "set ws1 \<subseteq> set unicode_space" and ws2: "set ws2 \<subseteq> set unicode_space"
    and marks: "set marks \<subseteq> set ''*%''"
  shows "parseFloat ParseFloat (concat ws1 @ num @ marks @ concat ws2) = ParseFloat num
       \<and> parseFloat ParseFloat num = ParseFloat num
       \<and> (TrimRight (TrimSpace t) ''*%'' = [] \<longrightarrow> parseFloat ParseFloat t = None)
       \<and> (ParseFloat (TrimRight (TrimSpace t) ''*%'') = None \<longrightarrow> parseFloat ParseFloat t = None)"
proof -
  from num obtain a m n z where s: "num = a # m" "num = n @ [z]"
    and a: "a \<in> set ''0123456789.+-eE''" and z: "z \<in> set ''0123456789.+-eE''"
    by (rule decimal_text_ends)
  have "\<forall>c \<in> set ''0123456789.+-eE''. c \<notin> set (map hd unicode_space)"
    using decimal_no_space_start by (simp only: list_all_iff)
  with a have "a \<notin> set (map hd unicode_space)" by blast
  then have a': "a \<notin> hd ` set unicode_space" by simp
  have "\<forall>c \<in> set ''0123456789.+-eE*%''. c \<notin> set (map hd (map rev unicode_space))"
    using decimal_no_space_end by (simp only: list_all_iff)
  then have e: "\<And>c. c \<in> set ''0123456789.+-eE*%'' \<Longrightarrow> c \<notin> hd ` set (map rev unicode_space)"
    unfolding set_map by blast
  have "list_all (\<lambda>c. c \<notin> set ''*%'') ''0123456789.+-eE''" by simp
  with z have zcut: "z \<notin> set ''*%''" unfolding list_all_iff by blast
  have sub1: "set ''0123456789.+-eE'' \<subseteq> set ''0123456789.+-eE*%''" by simp
  have sub2: "set ''*%'' \<subseteq> set ''0123456789.+-eE*%''" by simp
  have strip: "TrimRight (num @ marks) ''*%'' = num"
    using TrimRight_markers [OF marks zcut, of n] by (simp add: s(2))
  have strip0: "TrimRight num ''*%'' = num"
    using TrimRight_markers [of "[]" "''*%''" z n] zcut by (simp add: s(2))
  have trim: "TrimSpace (concat ws1 @ num @ marks @ concat ws2) = num @ marks"
  proof (cases marks rule: rev_cases)
    case Nil
    from z sub1 have "z \<in> set ''0123456789.+-eE*%''" by blast
    from TrimSpace_framed [OF ws1 ws2 a' e [OF this] s] Nil show ?thesis by simp
  next
    case (snoc ms k)
    with marks have "k \<in> set ''*%''" by simp
    with sub2 have "k \<in> set ''0123456789.+-eE*%''" by blast
    from TrimSpace_framed [OF ws1 ws2 a' e [OF this], of "num @ marks" "m @ marks" "num @ ms"]
    show ?thesis by (simp add: s(1) snoc)
  qed
  have trim0: "TrimSpace num = num"
  proof -
    from z sub1 have "z \<in> set ''0123456789.+-eE*%''" by blast
    from TrimSpace_framed [of "[]" "[]", OF _ _ a' e [OF this] s] show ?thesis by simp
  qed
  have ne: "num \<noteq> []" by (simp add: s(1))
  have 1: "parseFloat ParseFloat (concat ws1 @ num @ marks @ concat ws2) = ParseFloat num"
    by (simp add: parseFloat_def trim strip ne split: option.split)
  have 2: "parseFloat ParseFloat num = ParseFloat num"
    by (simp add: parseFloat_def trim0 strip0 ne split: option.split)
  have 3: "TrimRight (TrimSpace t) ''*%'' = [] \<longrightarrow> parseFloat ParseFloat t = None"
    by (simp add: parseFloat_def)
  have 4: "ParseFloat (TrimRight (TrimSpace t) ''*%'') = None \<longrightarrow> parseFloat ParseFloat t = None"
    by (simp add: parseFloat_def Let_def)
  from 1 2 3 4 show ?thesis by blast
qed

theorem parseFloat_strips_space_and_markers_witness:
  "decimal_text ''12.5''
   \<and> set [[CHR 0x20], [CHR 0x09]] \<subseteq> set unicode_space
   \<and> set [[CHR 0xC2, CHR 0xA0], [CHR 0x0A]] \<subseteq> set unicode_space
   \<and> set ''*%*'' \<subseteq> set ''*%''
   \<and> parseFloat (\<lambda>s. if s = ''12.5'' then Some (12.5 :: real) else None)
         ([CHR 0x20, CHR 0x09] @ ''12.5'' @ ''*%*'' @ [CHR 0xC2, CHR 0xA0, CHR 0x0A]) = Some 12.5
   \<and> TrimRight (TrimSpace [CHR 0x20, CHR 0x20, CHR ''%'']) ''*%'' = []
   \<and> parseFloat (\<lambda>s. if s = ''12.5'' then Some (12.5 :: real) else None)
         [CHR 0x20, CHR 0x20, CHR ''%''] = None"
proof -
  have h1: "decimal_text ''12.5''" by code_simp
  have h2: "set [[CHR 0x20], [CHR 0x09]] \<subseteq> set unicode_space"
    by (simp add: unicode_space_def)
  have h3: "set [[CHR 0xC2, CHR 0xA0], [CHR 0x0A]] \<subseteq> set unicode_space"
    by (simp add: unicode_space_def)
  have h4: "set ''*%*'' \<subseteq> set ''*%''" by simp
  have h5: "TrimRight (TrimSpace [CHR 0x20, CHR 0x20, CHR ''%'']) ''*%'' = []" by code_simp
  from parseFloat_strips_space_and_markers [OF h1 h2 h3 h4,
      of "\<lambda>s. if s = ''12.5'' then Some (12.5 :: real) else None" "[CHR 0x20, CHR 0x20, CHR ''%'']"]
    h1 h2 h3 h4 h5
  show ?thesis by simp
qed

section \<open>The date normaliser\<close>

text \<open>
  C4. A calendar date written in any of the four layouts \<open>Mon D, YYYY\<close>, \<open>D Mon, YYYY\<close>,
  \<open>Month D, YYYY\<close>, \<open>D Month, YYYY\<close> is normalised by \<open>parseDate\<close> to that date. Empty
  text (after trimming) gives absent. Otherwise the four layouts are tried in this order:
  the result is that of the first layout that parses, and absent when none does.
\<close>

theorem parseDate_round_trip:
  assumes "calendar_date y m d"
  shows "parseDate (render l y m d) = Some (Date y m d)
       \<and> (TrimSpace e = [] \<longrightarrow> parseDate e = None)
       \<and> (TrimSpace s \<noteq> [] \<and> i < length formats
            \<and> time_Parse (formats ! i) (TrimSpace s) = Some t
            \<and> (\<forall>j<i. time_Parse (formats ! j) (TrimSpace s) = None)
          \<longrightarrow> parseDate s = Some t)
       \<and> (TrimSpace s \<noteq> [] \<and> (\<forall>j<length formats. time_Parse (formats ! j) (TrimSpace s) = None)
          \<longrightarrow> parseDate s = None)
       \<and> formats = [layout_Jan_2_2006, layout_2_Jan_2006, layout_January_2_2006,
                     layout_2_January_2006]"
proof -
  have 1: "parseDate (render l y m d) = Some (Date y m d)"
    using TrimSpace_render [OF assms, of l] try_formats_render [OF assms, of l]
    by (simp add: parseDate_def)
  have 2: "TrimSpace e = [] \<longrightarrow> parseDate e = None"
    by (simp add: parseDate_def)
  have 3: "TrimSpace s \<noteq> [] \<and> i < length formats
            \<and> time_Parse (formats ! i) (TrimSpace s) = Some t
            \<and> (\<forall>j<i. time_Parse (formats ! j) (TrimSpace s) = None)
          \<longrightarrow> parseDate s = Some t"
    using try_formats_first [of i formats "TrimSpace s" t]
    by (simp add: parseDate_def)
  have 4: "TrimSpace s \<noteq> [] \<and> (\<forall>j<length formats. time_Parse (formats ! j) (TrimSpace s) = None)
          \<longrightarrow> parseDate s = None"
    using try_formats_none [of formats "TrimSpace s"]
    by (simp add: parseDate_def)
  have 5: "formats = [layout_Jan_2_2006, layout_2_Jan_2006, layout_January_2_2006,
                     layout_2_January_2006]"
    by (simp add: formats_def)
  from 1 2 3 4 5 show ?thesis by blast
qed

theorem parseDate_round_trip_witness:
  "calendar_date 2024 1 5
   \<and> render D_Month_YYYY 2024 1 5 = ''5 January, 2024''
   \<and> parseDate ''5 January, 2024'' = Some (Date 2024 1 5)
   \<and> TrimSpace [CHR 0x20, CHR 0x09] = [] \<and> parseDate [CHR 0x20, CHR 0x09] = None
   \<and> TrimSpace '' 5 May, 2024 '' \<noteq> [] \<and> (1::nat) < length formats
   \<and> time_Parse (formats ! 1) (TrimSpace '' 5 May, 2024 '') = Some (Date 2024 5 5)
   \<and> time_Parse (formats ! 0) (TrimSpace '' 5 May, 2024 '') = None
   \<and> parseDate '' 5 May, 2024 '' = Some (Date 2024 5 5)"
proof -
  have h: "calendar_date 2024 1 5" by code_simp
  have r: "render D_Month_YYYY 2024 1 5 = ''5 January, 2024''" by code_simp
  have e: "TrimSpace [CHR 0x20, CHR 0x09] = []" by code_simp
  have s: "TrimSpace '' 5 May, 2024 '' = ''5 May, 2024''" by code_simp
  have n: "(1::nat) < length formats" by (simp add: formats_def)
  have p1: "time_Parse (formats ! 1) ''5 May, 2024'' = Some (Date 2024 5 5)" by code_simp
  have p0: "time_Parse (formats ! 0) ''5 May, 2024'' = None" by code_simp
  from parseDate_round_trip [OF h, of D_Month_YYYY "[CHR 0x20, CHR 0x09]" "'' 5 May, 2024 ''" 1
      "Date 2024 5 5"] h r e s n p1 p0
  show ?thesis by simp
qed

section \<open>Extraction\<close>







text \<open>
  C6, as amended. The name of every snapshot that extraction produces is the trimmed text
  of the first \<open>td\<close> of its row without its trailing asterisks, so it does not end with an
  asterisk; it can be empty. Extraction produces these snapshots whenever the parser
  accepts the document.
\<close>

theorem fund_name_stripped:
  "(html_error w content = None \<longrightarrow>
      (\<exists>funds. parseHTML w content d = Inr funds
         \<and> map Name funds
             = map (\<lambda>row. TrimRight (TrimSpace (getNodeText (td_below row ! 0))) ''*'')
                 (extracted_rows (html_tree w content))
         \<and> list_all (\<lambda>fund. Name fund = [] \<or> last (Name fund) \<noteq> CHR ''*'') funds))
   \<and> (parseHTML w content d = Inr produced \<longrightarrow>
        map Name produced
          = map (\<lambda>row. TrimRight (TrimSpace (getNodeText (td_below row ! 0))) ''*'')
              (extracted_rows (html_tree w content))
        \<and> list_all (\<lambda>fund. Name fund = [] \<or> last (Name fund) \<noteq> CHR ''*'') produced)"
proof -
  let ?q = "extracted_rows (html_tree w content)"
  let ?funds = "map (\<lambda>row. row_fund w (td_below row) d) ?q"
  have q: "\<And>row. row \<in> set ?q \<Longrightarrow> 12 \<le> length (td_below row)"
    by (simp add: extracted_rows_def)
  have 1: "map Name ?funds
      = map (\<lambda>row. TrimRight (TrimSpace (getNodeText (td_below row ! 0))) ''*'') ?q"
    using q by (simp add: Name_row_fund)
  have "\<And>row. Name (row_fund w (td_below row) d) = []
      \<or> last (Name (row_fund w (td_below row) d)) \<noteq> CHR ''*''"
    using TrimRight_last [of _ "''*''"] by (simp add: row_fund_def)
  then have 2: "list_all (\<lambda>fund. Name fund = [] \<or> last (Name fund) \<noteq> CHR ''*'') ?funds"
    by (simp add: list_all_iff)
  have a: "parseHTML w content d = Inr ?funds" if "html_error w content = None"
    using that by (rule parseHTML_rows)
  have b: "produced = ?funds" if "parseHTML w content d = Inr produced"
    using that a [OF parseHTML_Inr_accepted [OF that]] by simp
  from 1 2 a b show ?thesis by blast
qed

theorem fund_name_stripped_witness:
  "html_error (example_world [data_cells, header_cells, empty_cells] None)
      (table_html [data_cells, header_cells, empty_cells]) = None
   \<and> \<not> isl (parseHTML (example_world [data_cells, header_cells, empty_cells] None)
               (table_html [data_cells, header_cells, empty_cells]) (Date 2024 3 1))
   \<and> map Name (projr (parseHTML (example_world [data_cells, header_cells, empty_cells] None)
               (table_html [data_cells, header_cells, empty_cells]) (Date 2024 3 1)))
     = [''Fund A'', []]"
proof -
  let ?rows = "[data_cells, header_cells, empty_cells]"
  let ?w = "example_world ?rows None"
  note a = example_accepted [of ?rows None]
  from fund_name_stripped [of ?w "table_html ?rows" "Date 2024 3 1"] a
  obtain funds where p: "parseHTML ?w (table_html ?rows) (Date 2024 3 1) = Inr funds"
    and n: "map Name funds
         = map (\<lambda>row. TrimRight (TrimSpace (getNodeText (td_below row ! 0))) ''*'')
             (extracted_rows (html_tree ?w (table_html ?rows)))"
    by blast
  from n have "map Name funds = [''Fund A'', []]"
    by (simp only: example_tree example_extracted example_names)
  with p a show ?thesis by simp
qed

text \<open>
  C6 as stated fails: a qualifying row whose first cell is empty gives a snapshot with the
  empty name.
\<close>

theorem fund_name_empty_counterexample:
  "parseHTML (example_world [empty_cells] None) (table_html [empty_cells]) (Date 2024 3 1)
     = Inr [\<lparr>Name = [], LaunchDate = None, ValidityDate = None, Repurchase = None,
             Offer = None, NAV = None, MTD = None, FYTD = None, CYTD = None, FY24 = None,
             FY23 = None, SinceInception = None, UploadDate = Date 2024 3 1\<rparr>]"
  by code_simp

text \<open>
  C8, as amended. Extraction from a string returns the error
  \<open>failed to parse HTML document\<close> exactly when the HTML parser rejects the document, with
  the error of the parser, and the list of snapshots otherwise; reading the string never
  fails.
\<close>

theorem parseHTML_fails_when_parser_rejects:
  "parseHTML w content d
     = (case html_error w content of
          Some err \<Rightarrow> Inl (''failed to parse HTML document: '' @ err)
        | None \<Rightarrow>
            Inr (map (\<lambda>row. row_fund w (td_below row) d) (extracted_rows (html_tree w content))))
   \<and> isl (parseHTML w content d) = (html_error w content \<noteq> None)
   \<and> ReadAll (strings_NewReader content) = Inr content"
  by (simp add: parseHTML_cases ReadAll_def strings_NewReader_def split: option.split)

theorem parseHTML_fails_when_parser_rejects_witness:
  "parseHTML (example_world [data_cells] None) ''</td><tr <<'' (Date 2024 3 1) = Inr []
   \<and> html_error (example_world [data_cells] None) ''</td><tr <<'' = None
   \<and> isl (parseHTML (example_world [data_cells] None) open_divs_html (Date 2024 3 1))
   \<and> html_error (example_world [data_cells] None) open_divs_html
       = Some ''html: open stack of elements exceeds 512 nodes''"
proof -
  let ?w = "example_world [data_cells] None"
  have 1: "html_error ?w ''</td><tr <<'' = None" by code_simp
  have 2: "extracted_rows (html_tree ?w ''</td><tr <<'') = []" by code_simp
  have 3: "html_error ?w open_divs_html = Some ''html: open stack of elements exceeds 512 nodes''"
    by (simp add: example_world_def deep_rejected)
  from parseHTML_fails_when_parser_rejects [of ?w "''</td><tr <<''" "Date 2024 3 1"]
    parseHTML_fails_when_parser_rejects [of ?w open_divs_html "Date 2024 3 1"] 1 2 3
  show ?thesis by simp
qed

text \<open>
  C8 as stated fails: the parser rejects a string of 511 \<open><div>\<close> tags, which with \<open>html\<close>
  and \<open>body\<close> opens 513 elements, and extraction returns the error.
\<close>

theorem parseHTML_error_counterexample:
  "parseHTML (example_world [data_cells] None) open_divs_html (Date 2024 3 1)
     = Inl ''failed to parse HTML document: html: open stack of elements exceeds 512 nodes''"
  by (simp add: parseHTML_cases example_world_def deep_rejected)
section \<open>Persistence\<close>

text \<open>
  C2. When the transaction is open and the statement prepared, and the insert of the
  snapshot at position \<open>i\<close> is the first one to fail, \<open>storeFunds\<close> leaves the database as
  it was before the call, and returns the error
  \<open>failed to insert fund '<name>': <cause>\<close> with the name of that snapshot.
\<close>

theorem storeFunds_failed_insert_rolls_back:
  assumes "BeginTx_err w = None" and "Prepare_err w = None"
    and "i < length funds"
    and "Exec_err w i (insert_args w (funds ! i)) = Some err"
    and "\<forall>j<i. Exec_err w j (insert_args w (funds ! j)) = None"
  shows "storeFunds w s funds
       = (Some (''failed to insert fund '' @ [CHR 0x27] @ Name (funds ! i) @ [CHR 0x27] @ '': '' @ err),
          s)"
  using assms insert_funds_first_failure [of i funds w 0 err "db s"]
  by (simp add: storeFunds_def)

theorem storeFunds_failed_insert_rolls_back_witness:
  "BeginTx_err (example_world [] (Some 1)) = None
   \<and> Prepare_err (example_world [] (Some 1)) = None
   \<and> (1::nat) < length [example_fund ''Fund A'', example_fund ''Fund B'']
   \<and> Exec_err (example_world [] (Some 1)) 1
        (insert_args (example_world [] (Some 1))
           ([example_fund ''Fund A'', example_fund ''Fund B''] ! 1)) = Some ''disk I/O error''
   \<and> Exec_err (example_world [] (Some 1)) 0
        (insert_args (example_world [] (Some 1))
           ([example_fund ''Fund A'', example_fund ''Fund B''] ! 0)) = None
   \<and> storeFunds (example_world [] (Some 1)) example_server
        [example_fund ''Fund A'', example_fund ''Fund B'']
     = (Some (''failed to insert fund '' @ [CHR 0x27] @ ''Fund B'' @ [CHR 0x27]
              @ '': disk I/O error''), example_server)"
proof -
  let ?w = "example_world [] (Some 1)"
  let ?funds = "[example_fund ''Fund A'', example_fund ''Fund B'']"
  have h1: "BeginTx_err ?w = None" and h2: "Prepare_err ?w = None"
    by (simp_all add: example_world_def document_world_def)
  have h3: "(1::nat) < length ?funds" by simp
  have h4: "Exec_err ?w 1 (insert_args ?w (?funds ! 1)) = Some ''disk I/O error''"
    by (simp add: example_world_def document_world_def)
  have h5: "Exec_err ?w 0 (insert_args ?w (?funds ! 0)) = None"
    by (simp add: example_world_def document_world_def)
  then have h5': "\<forall>j<1. Exec_err ?w j (insert_args ?w (?funds ! j)) = None" by simp
  have n: "Name (?funds ! 1) = ''Fund B''" by (simp add: example_fund_def)
  from storeFunds_failed_insert_rolls_back [OF h1 h2 h3 h4 h5', of example_server]
    h1 h2 h3 h4 h5 n
  show ?thesis by simp
qed

text \<open>
  C10. \<open>storeFunds\<close> with no snapshots leaves the database unchanged, whatever the
  database holds; it returns no error when the transaction is opened, the statement
  prepared and the transaction committed without error.
\<close>

theorem storeFunds_empty_batch:
  "snd (storeFunds w s []) = s
   \<and> (BeginTx_err w = None \<and> Prepare_err w = None \<and> Commit_err w = None
        \<longrightarrow> storeFunds w s [] = (None, s))"
  by (simp add: storeFunds_def split: option.splits)

theorem storeFunds_empty_batch_witness:
  "BeginTx_err (example_world [] None) = None \<and> Prepare_err (example_world [] None) = None
   \<and> Commit_err (example_world [] None) = None
   \<and> storeFunds (example_world [] None) example_server [] = (None, example_server)
   \<and> funds_rows (db (snd (storeFunds (example_world [] None) example_server [])))
       = [(1, [SqlText ''Old fund''])]"
proof -
  have h: "BeginTx_err (example_world [] None) = None" "Prepare_err (example_world [] None) = None"
    "Commit_err (example_world [] None) = None"
    by (simp_all add: example_world_def document_world_def)
  from storeFunds_empty_batch [of "example_world [] None" example_server] h
  show ?thesis by (simp add: example_server_def)
qed

section \<open>The upload handler\<close>

text \<open>
  C7. A request that the handler answers with a 4xx status leaves the server as it was:
  the table \<open>funds\<close> is the same before and after.
\<close>

theorem uploadHandler_4xx_leaves_state:
  assumes "uploadHandler w s r = (resp, s')"
    and "400 \<le> Status resp" and "Status resp < 500"
  shows "s' = s \<and> funds_rows (db s') = funds_rows (db s)"
  using assms
  by (auto simp: uploadHandler_def Let_def StatusOK_def StatusBadRequest_def
      StatusUnauthorized_def StatusMethodNotAllowed_def StatusRequestEntityTooLarge_def
      StatusInternalServerError_def
      split: if_splits option.splits sum.splits prod.splits)

theorem uploadHandler_4xx_leaves_state_witness:
  "uploadHandler (example_world [header_cells] None) example_server
     (example_request ''secret'' (table_html [header_cells]) [])
   = (http_Error ''No funds found in the provided HTML'' StatusBadRequest, example_server)
   \<and> 400 \<le> Status (http_Error ''No funds found in the provided HTML'' StatusBadRequest)
   \<and> Status (http_Error ''No funds found in the provided HTML'' StatusBadRequest) < 500
   \<and> funds_rows (db (snd (uploadHandler (example_world [header_cells] None) example_server
        (example_request ''secret'' (table_html [header_cells]) []))))
     = funds_rows (db example_server)
   \<and> uploadHandler (example_world [data_cells] None) example_server
        (example_request [] (table_html [data_cells]) [])
     = (http_Error ''Unauthorized'' StatusUnauthorized, example_server)"
proof -
  have 0: "uploadHandler (example_world [data_cells] None) example_server
        (example_request [] (table_html [data_cells]) [])
     = (http_Error ''Unauthorized'' StatusUnauthorized, example_server)"
    by (simp add: uploadHandler_def example_request_def example_server_def)
  have 1: "400 \<le> Status (http_Error ''No funds found in the provided HTML'' StatusBadRequest)"
    and 2: "Status (http_Error ''No funds found in the provided HTML'' StatusBadRequest) < 500"
    by (simp_all add: StatusBadRequest_def)
  from uploadHandler_4xx_leaves_state [OF example_no_rows 1 2] example_no_rows 0 1 2
  show ?thesis by simp
qed

text \<open>
  C9. The handler extracts from the unescaped bytes of the file: when it answers 200, or
  answers that no funds were found, the snapshots are those of \<open>parseHTML\<close> on
  \<open>html.UnescapeString\<close> of the bytes read; on 200 they are the ones stored and encoded.
  In the example the bytes hold the table with \<open>&lt;\<close> and \<open>&gt;\<close> for its angle brackets:
  as they are they have no qualifying row, unescaped they have one, which is stored.
\<close>

theorem uploadHandler_extracts_from_unescaped_text:
  assumes "uploadHandler w s r = (resp, s')"
    and "Status resp = StatusOK \<or> Body resp = ''No funds found in the provided HTML'' @ [CHR 0x0A]"
  shows "\<exists>file fileHeader fileBytes uploadDate funds.
      FormFile r ''file'' = Inr (file, fileHeader)
    \<and> ReadAll (LimitReader file maxFileSize) = Inr fileBytes
    \<and> (if FormValue r ''date'' \<noteq> [] then time_Parse layout_2006_01_02 (FormValue r ''date'')
        else Some (Now w)) = Some uploadDate
    \<and> parseHTML w (UnescapeString w fileBytes) uploadDate = Inr funds
    \<and> (if Status resp = StatusOK
        then funds \<noteq> [] \<and> storeFunds w s funds = (None, s')
             \<and> json_Encode w funds = Inr (Body resp)
        else funds = [] \<and> Status resp = StatusBadRequest \<and> s' = s)"
  using assms
  by (auto simp: uploadHandler_def Let_def StatusOK_def StatusBadRequest_def
      StatusUnauthorized_def StatusMethodNotAllowed_def StatusRequestEntityTooLarge_def
      StatusInternalServerError_def http_Error_def
      split: if_splits option.splits sum.splits prod.splits)

theorem uploadHandler_extracts_from_unescaped_text_witness:
  "Status (fst (uploadHandler (example_world [data_cells, header_cells] None) example_server
      (example_request ''secret'' (escape_lt_gt (table_html [data_cells, header_cells]))
         ''2024-03-01''))) = StatusOK
   \<and> extracted_rows (html_tree (example_world [data_cells, header_cells] None)
        (escape_lt_gt (table_html [data_cells, header_cells]))) = []
   \<and> UnescapeString (example_world [data_cells, header_cells] None)
        (escape_lt_gt (table_html [data_cells, header_cells]))
      = table_html [data_cells, header_cells]
   \<and> length (projr (parseHTML (example_world [data_cells, header_cells] None)
        (table_html [data_cells, header_cells]) (Date 2024 3 1))) = 1
   \<and> storeFunds (example_world [data_cells, header_cells] None) example_server
        (projr (parseHTML (example_world [data_cells, header_cells] None)
           (table_html [data_cells, header_cells]) (Date 2024 3 1)))
      = (None, snd (uploadHandler (example_world [data_cells, header_cells] None) example_server
          (example_request ''secret'' (escape_lt_gt (table_html [data_cells, header_cells]))
             ''2024-03-01'')))"
proof -
  let ?rows = "[data_cells, header_cells]"
  let ?w = "example_world ?rows None"
  let ?bytes = "escape_lt_gt (table_html ?rows)"
  let ?r = "example_request ''secret'' ?bytes ''2024-03-01''"
  let ?out = "uploadHandler ?w example_server ?r"
  have ok: "Status (fst ?out) = StatusOK" by code_simp
  have raw: "extracted_rows (html_tree ?w ?bytes) = []" by code_simp
  have un: "UnescapeString ?w ?bytes = table_html ?rows" by code_simp
  have one: "length (projr (parseHTML ?w (table_html ?rows) (Date 2024 3 1))) = 1" by code_simp
  have ff: "FormFile ?r ''file''
      = Inr (Reader ?bytes None, \<lparr>Filename = ''funds.html'', Size = int (length ?bytes)\<rparr>)"
    by (simp add: example_request_def)
  have rd: "ReadAll (LimitReader (Reader ?bytes None) maxFileSize) = Inr ?bytes" by code_simp
  have dt: "(if FormValue ?r ''date'' \<noteq> []
             then time_Parse layout_2006_01_02 (FormValue ?r ''date'') else Some (Now ?w))
      = Some (Date 2024 3 1)" by code_simp
  have "?out = (fst ?out, snd ?out)" by simp
  from uploadHandler_extracts_from_unescaped_text [OF this disjI1 [OF ok]]
  obtain fl fileHeader fileBytes uploadDate funds where
    1: "FormFile ?r ''file'' = Inr (fl, fileHeader)"
    and 2: "ReadAll (LimitReader fl maxFileSize) = Inr fileBytes"
    and 3: "(if FormValue ?r ''date'' \<noteq> []
             then time_Parse layout_2006_01_02 (FormValue ?r ''date'') else Some (Now ?w))
        = Some uploadDate"
    and 4: "parseHTML ?w (UnescapeString ?w fileBytes) uploadDate = Inr funds"
    and "if Status (fst ?out) = StatusOK
         then funds \<noteq> [] \<and> storeFunds ?w example_server funds = (None, snd ?out)
              \<and> json_Encode ?w funds = Inr (Body (fst ?out))
         else funds = [] \<and> Status (fst ?out) = StatusBadRequest \<and> snd ?out = example_server"
    by blast
  with ok have 5: "storeFunds ?w example_server funds = (None, snd ?out)" by simp
  from 1 ff have "fl = Reader ?bytes None" by simp
  with 2 rd have b: "fileBytes = ?bytes" by simp
  from 3 dt have u: "uploadDate = Date 2024 3 1" by simp
  from 4 have "parseHTML ?w (table_html ?rows) (Date 2024 3 1) = Inr funds"
    by (simp only: b u un)
  then have "projr (parseHTML ?w (table_html ?rows) (Date 2024 3 1)) = funds" by simp
  with 5 have st: "storeFunds ?w example_server
      (projr (parseHTML ?w (table_html ?rows) (Date 2024 3 1))) = (None, snd ?out)"
    by simp
  from ok raw un one st show ?thesis by blast
qed


end
